theory Spec2Isabelle
  imports Complex_Main "HOL-Library.Product_Lexorder" "HOL-Library.Multiset"
begin

section \<open>Data model\<close>

text \<open>
  The cost-layer engine of MobiERP lives in PostgreSQL: the tables and PL/pgSQL functions of
  \<^verbatim>\<open>add-fifo-lifo-support.sql\<close>, the report function of
  \<^verbatim>\<open>add-inventory-valuation-methods.sql\<close>, and the TypeScript service
  \<^verbatim>\<open>updateProductStock\<close> that talks to them.

  Conventions of the embedding.
  \<^item> A \<^verbatim>\<open>UUID\<close> is a natural number (only equality and the total order of
    \<^verbatim>\<open>ORDER BY id\<close> are used); a \<^verbatim>\<open>TIMESTAMPTZ\<close> is an integer.
  \<^item> A \<^verbatim>\<open>DECIMAL(10,2)\<close> value is the integer number of hundredths it denotes
    (10.75 is 1075). An unconstrained \<^verbatim>\<open>numeric\<close> intermediate result is a rational
    number of hundredths; numeric division is taken to be exact, where PostgreSQL rounds
    the quotient to a scale of at least sixteen significant digits.
  \<^item> \<^verbatim>\<open>INTEGER\<close> columns and variables are unbounded integers: the error
    "integer out of range", which PostgreSQL raises beyond 2147483647, is not modelled.
  \<^item> A \<^verbatim>\<open>RAISE EXCEPTION\<close>, a violated constraint or a thrown JavaScript error is the
    left summand of the result.
  \<^item> The audit-only columns \<^verbatim>\<open>purchased_by\<close>, \<^verbatim>\<open>notes\<close>,
    \<^verbatim>\<open>updated_at\<close> and the descriptive columns of products are left out.
\<close>

type_synonym uuid = nat
type_synonym timestamptz = int
type_synonym decimal_10_2 = int

datatype error =
    ProductNotFound
  | InsufficientStock int int
  | InsufficientInventoryToAllocate int
  | CheckViolation
  | UniqueViolation
  | ForeignKeyViolation
  | NumericFieldOverflow
  | DivisionByZero
  | AdditionalStockNotPositive
  | RpcFailed
  | FetchFailed

record product =
  cost :: decimal_10_2
  stock :: int
  is_active :: bool
  created_at :: timestamptz

record inventory_purchase =
  purchase_id :: uuid
  product_id :: uuid
  quantity :: int
  unit_cost :: decimal_10_2
  remaining_quantity :: int
  purchased_at :: timestamptz

record sale_item =
  item_product_id :: uuid
  item_quantity :: int
  unit_price :: decimal_10_2
  cost_price :: decimal_10_2

record database =
  products :: "uuid \<rightharpoonup> product"
  inventory_purchases :: "inventory_purchase list"
  sale_items :: "sale_item list"
  system_settings :: "string \<rightharpoonup> string"

text \<open>What a statement draws from its surroundings: \<^verbatim>\<open>NOW()\<close> and the value of
  \<^verbatim>\<open>uuid_generate_v4()\<close> for the row it may insert.\<close>

record environment =
  now :: timestamptz
  new_uuid :: uuid

subsection \<open>Numeric helpers\<close>

text \<open>\<^verbatim>\<open>ROUND(x, 2)\<close> on numeric rounds half away from zero; the argument is the exact
  value in hundredths.\<close>

definition round_half_away :: "rat \<Rightarrow> int" where
  "round_half_away x = (if 0 \<le> x then \<lfloor>x + 1 / 2\<rfloor> else - \<lfloor>- x + 1 / 2\<rfloor>)"

text \<open>Assignment to a \<^verbatim>\<open>DECIMAL(10,2)\<close> variable or column: the value is rounded to two
  places and must have at most eight digits before the point.\<close>

definition numeric_10_2 :: "rat \<Rightarrow> error + decimal_10_2" where
  "numeric_10_2 x =
     (let r = round_half_away x
      in if \<bar>r\<bar> < 10 ^ 10 then Inr r else Inl NumericFieldOverflow)"

text \<open>A statement that raises leaves the database as it was.\<close>

definition execute :: "(database \<Rightarrow> error + database) \<Rightarrow> database \<Rightarrow> error option \<times> database" where
  "execute stmt db = (case stmt db of Inl e \<Rightarrow> (Some e, db) | Inr db' \<Rightarrow> (None, db'))"

section \<open>add-fifo-lifo-support.sql\<close>

subsection \<open>Table constraints of inventory\_purchases\<close>

definition purchase_checks :: "inventory_purchase \<Rightarrow> bool" where
  "purchase_checks p =
     (quantity p > 0 \<and> unit_cost p \<ge> 0 \<and> remaining_quantity p \<ge> 0
      \<and> remaining_quantity p \<le> quantity p)"

definition insert_inventory_purchase :: "inventory_purchase \<Rightarrow> database \<Rightarrow> error + database" where
  "insert_inventory_purchase p db =
     (if purchase_id p \<in> set (map purchase_id (inventory_purchases db)) then Inl UniqueViolation
      else if purchase_checks p then
        (case products db (product_id p) of
           None \<Rightarrow> Inl ForeignKeyViolation
         | Some _ \<Rightarrow> Inr (db\<lparr>inventory_purchases := inventory_purchases db @ [p]\<rparr>))
      else Inl CheckViolation)"

text \<open>\<^verbatim>\<open>UPDATE inventory_purchases SET remaining_quantity = remaining_quantity - v_allocated
  WHERE id = v_purchase.id\<close>: first the rows as the statement rewrites them, then the checks
  on the rewritten rows.\<close>

definition set_remaining ::
  "uuid \<Rightarrow> int \<Rightarrow> inventory_purchase list \<Rightarrow> inventory_purchase list" where
  "set_remaining i v_allocated tbl =
     map (\<lambda>p. if purchase_id p = i
              then p\<lparr>remaining_quantity := remaining_quantity p - v_allocated\<rparr>
              else p) tbl"

definition update_remaining ::
  "uuid \<Rightarrow> int \<Rightarrow> inventory_purchase list \<Rightarrow> error + inventory_purchase list" where
  "update_remaining i v_allocated tbl =
     (let tbl' = set_remaining i v_allocated tbl
      in if list_all purchase_checks (filter (\<lambda>p. purchase_id p = i) tbl')
         then Inr tbl' else Inl CheckViolation)"

subsection \<open>get\_inventory\_costing\_method\<close>

definition get_inventory_costing_method :: "database \<Rightarrow> string" where
  "get_inventory_costing_method db =
     (case system_settings db ''inventory_costing_method'' of
        None \<Rightarrow> ''FIFO''
      | Some v_method \<Rightarrow> v_method)"

subsection \<open>The cursor queries\<close>

text \<open>\<^verbatim>\<open>WHERE product_id = p_product_id AND remaining_quantity > 0\<close>\<close>

definition unconsumed :: "uuid \<Rightarrow> inventory_purchase list \<Rightarrow> inventory_purchase list" where
  "unconsumed p_product_id tbl =
     filter (\<lambda>p. product_id p = p_product_id \<and> remaining_quantity p > 0) tbl"

text \<open>\<^verbatim>\<open>ORDER BY purchased_at ASC, id ASC\<close>\<close>

definition order_asc :: "inventory_purchase list \<Rightarrow> inventory_purchase list" where
  "order_asc rows = sort_key (\<lambda>p. (purchased_at p, int (purchase_id p))) rows"

text \<open>\<^verbatim>\<open>ORDER BY purchased_at DESC, id DESC\<close>: ascending in the negated keys.\<close>

definition order_desc :: "inventory_purchase list \<Rightarrow> inventory_purchase list" where
  "order_desc rows = sort_key (\<lambda>p. (- purchased_at p, - int (purchase_id p))) rows"

subsection \<open>calculate\_sale\_cost\<close>

text \<open>The body of both \<^verbatim>\<open>FOR v_purchase IN ... LOOP\<close> blocks; \<^verbatim>\<open>v_total_cost\<close> is a
  \<^verbatim>\<open>DECIMAL(10,2)\<close> variable.\<close>

fun cost_loop :: "inventory_purchase list \<Rightarrow> int \<Rightarrow> decimal_10_2 \<Rightarrow> error + decimal_10_2" where
  "cost_loop [] v_remaining_to_allocate v_total_cost = Inr v_total_cost"
| "cost_loop (v_purchase # rest) v_remaining_to_allocate v_total_cost =
     (let v_allocated = min (remaining_quantity v_purchase) v_remaining_to_allocate
      in case numeric_10_2 (of_int (v_total_cost + v_allocated * unit_cost v_purchase)) of
           Inl e \<Rightarrow> Inl e
         | Inr v_total_cost' \<Rightarrow>
             (let v_remaining_to_allocate' = v_remaining_to_allocate - v_allocated
              in if v_remaining_to_allocate' = 0 then Inr v_total_cost'
                 else cost_loop rest v_remaining_to_allocate' v_total_cost'))"

text \<open>\<^verbatim>\<open>COALESCE(SUM(remaining_quantity * unit_cost) / NULLIF(SUM(remaining_quantity), 0), 0)\<close>
  over the selected rows; both sums are NULL when there is no row.\<close>

definition weighted_average :: "inventory_purchase list \<Rightarrow> rat" where
  "weighted_average rows =
     (if rows = [] then 0
      else if sum_list (map remaining_quantity rows) = 0 then 0
      else of_int (sum_list (map (\<lambda>p. remaining_quantity p * unit_cost p) rows))
           / of_int (sum_list (map remaining_quantity rows)))"

definition average_cost :: "inventory_purchase list \<Rightarrow> int \<Rightarrow> error + decimal_10_2" where
  "average_cost rows p_quantity =
     (case numeric_10_2 (weighted_average rows) of
        Inl e \<Rightarrow> Inl e
      | Inr v_total_cost \<Rightarrow> numeric_10_2 (of_int (v_total_cost * p_quantity)))"

definition calculate_sale_cost :: "database \<Rightarrow> uuid \<Rightarrow> int \<Rightarrow> error + decimal_10_2" where
  "calculate_sale_cost db p_product_id p_quantity =
     (let v_method = get_inventory_costing_method db;
          rows = unconsumed p_product_id (inventory_purchases db);
          v_total_cost =
            (if v_method = ''FIFO'' then cost_loop (order_asc rows) p_quantity 0
             else if v_method = ''LIFO'' then cost_loop (order_desc rows) p_quantity 0
             else average_cost rows p_quantity)
      in case v_total_cost of
           Inl e \<Rightarrow> Inl e
         | Inr v \<Rightarrow> Inr (round_half_away (of_int v)))"

subsection \<open>allocate\_inventory\_on\_sale\<close>

fun allocate_loop ::
  "inventory_purchase list \<Rightarrow> int \<Rightarrow> inventory_purchase list
     \<Rightarrow> error + (int \<times> inventory_purchase list)" where
  "allocate_loop [] v_remaining_to_allocate tbl = Inr (v_remaining_to_allocate, tbl)"
| "allocate_loop (v_purchase # rest) v_remaining_to_allocate tbl =
     (let v_allocated = min (remaining_quantity v_purchase) v_remaining_to_allocate
      in case update_remaining (purchase_id v_purchase) v_allocated tbl of
           Inl e \<Rightarrow> Inl e
         | Inr tbl' \<Rightarrow>
             (let v_remaining_to_allocate' = v_remaining_to_allocate - v_allocated
              in if v_remaining_to_allocate' = 0 then Inr (v_remaining_to_allocate', tbl')
                 else allocate_loop rest v_remaining_to_allocate' tbl'))"

definition allocate_inventory_on_sale :: "uuid \<Rightarrow> int \<Rightarrow> database \<Rightarrow> error + database" where
  "allocate_inventory_on_sale p_product_id p_quantity db =
     (let v_method = get_inventory_costing_method db;
          rows = unconsumed p_product_id (inventory_purchases db);
          cursor =
            (if v_method = ''FIFO'' then order_asc rows
             else if v_method = ''LIFO'' then order_desc rows
             else order_asc rows)
      in case allocate_loop cursor p_quantity (inventory_purchases db) of
           Inl e \<Rightarrow> Inl e
         | Inr (v_remaining_to_allocate, tbl') \<Rightarrow>
             if v_remaining_to_allocate > 0
             then Inl (InsufficientInventoryToAllocate v_remaining_to_allocate)
             else Inr (db\<lparr>inventory_purchases := tbl'\<rparr>))"

subsection \<open>Triggers on products\<close>

definition record_initial_inventory_purchase ::
  "environment \<Rightarrow> uuid \<Rightarrow> product \<Rightarrow> database \<Rightarrow> error + database" where
  "record_initial_inventory_purchase env new_id new db =
     (if stock new > 0
      then insert_inventory_purchase
             \<lparr>purchase_id = new_uuid env, product_id = new_id, quantity = stock new,
              unit_cost = cost new, remaining_quantity = stock new,
              purchased_at = created_at new\<rparr> db
      else Inr db)"

definition record_inventory_purchase ::
  "environment \<Rightarrow> uuid \<Rightarrow> product \<Rightarrow> product \<Rightarrow> database \<Rightarrow> error + database" where
  "record_inventory_purchase env new_id old new db =
     (if stock new > stock old
      then (let v_quantity_added = stock new - stock old
            in insert_inventory_purchase
                 \<lparr>purchase_id = new_uuid env, product_id = new_id, quantity = v_quantity_added,
                  unit_cost = cost new, remaining_quantity = v_quantity_added,
                  purchased_at = now env\<rparr> db)
      else Inr db)"

text \<open>\<^verbatim>\<open>INSERT INTO products\<close>, its checks, then the trigger
  \<^verbatim>\<open>record_initial_purchase_on_insert\<close>.\<close>

definition insert_product :: "environment \<Rightarrow> uuid \<Rightarrow> product \<Rightarrow> database \<Rightarrow> error + database" where
  "insert_product env new_id new db =
     (case products db new_id of
        Some _ \<Rightarrow> Inl UniqueViolation
      | None \<Rightarrow>
          if cost new \<ge> 0 \<and> stock new \<ge> 0
          then record_initial_inventory_purchase env new_id new
                 (db\<lparr>products := (products db)(new_id \<mapsto> new)\<rparr>)
          else Inl CheckViolation)"

text \<open>\<^verbatim>\<open>UPDATE products SET stock = ... WHERE id = ...\<close>, its check, then the trigger
  \<^verbatim>\<open>record_purchase_on_stock_increase\<close>. No row with that id: nothing is updated.\<close>

definition update_products_stock ::
  "environment \<Rightarrow> uuid \<Rightarrow> (int \<Rightarrow> int) \<Rightarrow> database \<Rightarrow> error + database" where
  "update_products_stock env target set_stock db =
     (case products db target of
        None \<Rightarrow> Inr db
      | Some old \<Rightarrow>
          (let new = old\<lparr>stock := set_stock (stock old)\<rparr>
           in if stock new \<ge> 0
              then record_inventory_purchase env target old new
                     (db\<lparr>products := (products db)(target \<mapsto> new)\<rparr>)
              else Inl CheckViolation))"

subsection \<open>check\_and\_allocate\_inventory, the trigger before insert on sale\_items\<close>

definition check_and_allocate_inventory ::
  "environment \<Rightarrow> sale_item \<Rightarrow> database \<Rightarrow> error + (sale_item \<times> database)" where
  "check_and_allocate_inventory env new db =
     (case products db (item_product_id new) of
        None \<Rightarrow> Inl ProductNotFound
      | Some v_product \<Rightarrow>
          if stock v_product < item_quantity new
          then Inl (InsufficientStock (stock v_product) (item_quantity new))
          else
            (case calculate_sale_cost db (item_product_id new) (item_quantity new) of
               Inl e \<Rightarrow> Inl e
             | Inr v_calculated_cost \<Rightarrow>
                 if item_quantity new = 0 then Inl DivisionByZero
                 else
                   (case numeric_10_2 (of_int v_calculated_cost / of_int (item_quantity new)) of
                      Inl e \<Rightarrow> Inl e
                    | Inr c \<Rightarrow>
                        (case allocate_inventory_on_sale (item_product_id new)
                                (item_quantity new) db of
                           Inl e \<Rightarrow> Inl e
                         | Inr db1 \<Rightarrow>
                             (case update_products_stock env (item_product_id new)
                                     (\<lambda>s. s - item_quantity new) db1 of
                                Inl e \<Rightarrow> Inl e
                              | Inr db2 \<Rightarrow> Inr (new\<lparr>cost_price := c\<rparr>, db2))))))"

text \<open>\<^verbatim>\<open>INSERT INTO sale_items\<close>: the trigger first, then the checks of the row.\<close>

definition insert_sale_item :: "environment \<Rightarrow> sale_item \<Rightarrow> database \<Rightarrow> error + database" where
  "insert_sale_item env new db =
     (case check_and_allocate_inventory env new db of
        Inl e \<Rightarrow> Inl e
      | Inr (new', db') \<Rightarrow>
          if item_quantity new' > 0 \<and> unit_price new' \<ge> 0 \<and> cost_price new' \<ge> 0
          then Inr (db'\<lparr>sale_items := sale_items db' @ [new']\<rparr>)
          else Inl CheckViolation)"

section \<open>add-inventory-valuation-methods.sql\<close>

definition get_inventory_valuation_method :: "database \<Rightarrow> string" where
  "get_inventory_valuation_method db =
     (case system_settings db ''inventory_valuation_method'' of
        None \<Rightarrow> ''FIFO''
      | Some v_method \<Rightarrow> v_method)"

text \<open>A row of the table that \<^verbatim>\<open>calculate_inventory_value\<close> returns, without its
  \<^verbatim>\<open>product_id\<close>, which is the key under which the row is found.\<close>

record valuation =
  current_stock :: int
  valuation_cost :: decimal_10_2
  total_value :: decimal_10_2
  method_used :: string

text \<open>\<^verbatim>\<open>SUM(ip.quantity) OVER (PARTITION BY p.id ORDER BY ip.purchased_at ASC)\<close>: the default
  window frame runs from the start of the partition to the last peer of the current row, so
  the sum covers every purchase that is not later than the current one. With
  \<^verbatim>\<open>DESC\<close> it covers every purchase that is not earlier.\<close>

definition cumulative_qty_asc :: "inventory_purchase list \<Rightarrow> inventory_purchase \<Rightarrow> int" where
  "cumulative_qty_asc rows r =
     sum_list (map quantity (filter (\<lambda>r'. purchased_at r' \<le> purchased_at r) rows))"

definition cumulative_qty_desc :: "inventory_purchase list \<Rightarrow> inventory_purchase \<Rightarrow> int" where
  "cumulative_qty_desc rows r =
     sum_list (map quantity (filter (\<lambda>r'. purchased_at r \<le> purchased_at r') rows))"

text \<open>The \<^verbatim>\<open>CASE\<close> expression of \<^verbatim>\<open>allocated_costs\<close>.\<close>

definition allocated_cost :: "int \<Rightarrow> int \<Rightarrow> inventory_purchase \<Rightarrow> int" where
  "allocated_cost current_qty cumulative_qty r =
     (if cumulative_qty \<le> current_qty then unit_cost r * quantity r
      else if cumulative_qty - quantity r < current_qty
           then unit_cost r * (current_qty - (cumulative_qty - quantity r))
      else 0)"

text \<open>The two common table expressions and the final \<^verbatim>\<open>SELECT\<close> of the FIFO and LIFO
  branches. A product without purchases has only the NULL row of the left join, which
  \<^verbatim>\<open>WHERE unit_cost IS NOT NULL\<close> removes, so it has no group and no result row.\<close>

definition ranked_valuation ::
  "string \<Rightarrow> (inventory_purchase \<Rightarrow> int) \<Rightarrow> int \<Rightarrow> inventory_purchase list \<Rightarrow> valuation option" where
  "ranked_valuation method cumulative_qty current_qty rows =
     (if rows = [] then None
      else
        (let total_cost =
               sum_list (map (\<lambda>r. allocated_cost current_qty (cumulative_qty r) r) rows)
         in Some \<lparr>current_stock = current_qty,
                  valuation_cost =
                    (if current_qty > 0
                     then round_half_away (of_int total_cost / of_int current_qty) else 0),
                  total_value = round_half_away (of_int total_cost),
                  method_used = method\<rparr>))"

text \<open>The AVERAGE branch: \<^verbatim>\<open>COALESCE(SUM(unit_cost * quantity) / NULLIF(SUM(quantity), 0), p.cost)\<close>.\<close>

definition average_valuation :: "product \<Rightarrow> inventory_purchase list \<Rightarrow> valuation" where
  "average_valuation p rows =
     (let per_unit =
            (if rows = [] then of_int (cost p)
             else if sum_list (map quantity rows) = 0 then of_int (cost p)
             else of_int (sum_list (map (\<lambda>r. unit_cost r * quantity r) rows))
                  / of_int (sum_list (map quantity rows)))
      in \<lparr>current_stock = stock p,
          valuation_cost = round_half_away per_unit,
          total_value = round_half_away (of_int (stock p) * per_unit),
          method_used = ''AVERAGE''\<rparr>)"

definition calculate_inventory_value :: "database \<Rightarrow> uuid \<Rightarrow> valuation option" where
  "calculate_inventory_value db pid =
     (case products db pid of
        None \<Rightarrow> None
      | Some p \<Rightarrow>
          if is_active p \<and> stock p > 0
          then
            (let v_method = get_inventory_valuation_method db;
                 rows = filter (\<lambda>ip. product_id ip = pid) (inventory_purchases db)
             in if v_method = ''FIFO''
                then ranked_valuation ''FIFO'' (cumulative_qty_asc rows) (stock p) rows
                else if v_method = ''LIFO''
                then ranked_valuation ''LIFO'' (cumulative_qty_desc rows) (stock p) rows
                else Some (average_valuation p rows))
          else None)"

section \<open>Restocking: add\_product\_stock and updateProductStock\<close>

text \<open>The remote procedure \<^verbatim>\<open>add_product_stock(p_product_id, p_additional_stock, p_user_id)\<close>
  in the version that is installed after \<^verbatim>\<open>add-fifo-lifo-support.sql\<close>: it raises the
  stock, which fires the trigger on a stock increase, and then inserts a purchase record of
  its own. The two inserts draw different ids.\<close>

definition add_product_stock ::
  "environment \<Rightarrow> environment \<Rightarrow> uuid \<Rightarrow> int \<Rightarrow> database \<Rightarrow> error + database" where
  "add_product_stock env1 env2 p_product_id p_additional_stock db =
     (if p_additional_stock \<le> 0 then Inl AdditionalStockNotPositive
      else
        (case products db p_product_id of
           None \<Rightarrow> Inl ProductNotFound
         | Some v_product \<Rightarrow>
             if is_active v_product
             then
               (case update_products_stock env1 p_product_id
                       (\<lambda>s. s + p_additional_stock) db of
                  Inl e \<Rightarrow> Inl e
                | Inr db1 \<Rightarrow>
                    insert_inventory_purchase
                      \<lparr>purchase_id = new_uuid env2, product_id = p_product_id,
                       quantity = p_additional_stock, unit_cost = cost v_product,
                       remaining_quantity = p_additional_stock,
                       purchased_at = now env2\<rparr> db1)
             else Inl ProductNotFound))"

text \<open>The service function. The call of the remote procedure is a parameter, since the
  procedure exists in several versions and may be unreachable. When the call reports an error
  the function falls back to two separate requests: an update of the product row (which
  fires the trigger on a stock increase) and an insert into \<^verbatim>\<open>inventory_purchases\<close>; an
  error of the insert is logged and not thrown.\<close>

definition updateProductStock ::
  "(uuid \<Rightarrow> int \<Rightarrow> database \<Rightarrow> error + database) \<Rightarrow> environment \<Rightarrow> environment
     \<Rightarrow> uuid \<Rightarrow> int \<Rightarrow> database \<Rightarrow> error + database" where
  "updateProductStock rpc env1 env2 target additionalStock db =
     (case rpc target additionalStock db of
        Inr db' \<Rightarrow> Inr db'
      | Inl _ \<Rightarrow>
          (case products db target of
             None \<Rightarrow> Inl FetchFailed
           | Some product \<Rightarrow>
               (case update_products_stock env1 target
                       (\<lambda>_. stock product + additionalStock) db of
                  Inl updateError \<Rightarrow> Inl updateError
                | Inr db1 \<Rightarrow>
                    (case insert_inventory_purchase
                            \<lparr>purchase_id = new_uuid env2, product_id = target,
                             quantity = additionalStock, unit_cost = cost product,
                             remaining_quantity = additionalStock,
                             purchased_at = now env2\<rparr> db1 of
                       Inl purchaseError \<Rightarrow> Inr db1
                     | Inr db2 \<Rightarrow> Inr db2))))"

section \<open>The policy switch\<close>

datatype policy = FIFO | LIFO | AVERAGE

fun policy_name :: "policy \<Rightarrow> string" where
  "policy_name FIFO = ''FIFO''"
| "policy_name LIFO = ''LIFO''"
| "policy_name AVERAGE = ''AVERAGE''"

text \<open>Modelled from the spec: the setter of the costing policy (\<^verbatim>\<open>setInventoryMethod\<close> of
  the service layer) is not among the sources. The specification says that
  \<^verbatim>\<open>setPolicy(p)\<close> changes the single global setting and is effective immediately for all
  subsequent calls; the setting is the row \<^verbatim>\<open>inventory_costing_method\<close> of
  \<^verbatim>\<open>system_settings\<close> that \<^verbatim>\<open>get_inventory_costing_method\<close> reads.\<close>

definition setPolicy :: "policy \<Rightarrow> database \<Rightarrow> database" where
  "setPolicy p db =
     db\<lparr>system_settings := (system_settings db)(''inventory_costing_method'' \<mapsto> policy_name p)\<rparr>"

section \<open>Observations used by the properties\<close>

text \<open>The sum of \<^verbatim>\<open>remaining_quantity\<close> over all lots of a product, the cost of the units
  that are still available, and the well-formedness that the primary key and the table checks
  of \<^verbatim>\<open>inventory_purchases\<close> maintain.\<close>

definition lots_of :: "uuid \<Rightarrow> inventory_purchase list \<Rightarrow> inventory_purchase list" where
  "lots_of pid tbl = filter (\<lambda>p. product_id p = pid) tbl"

definition total_remaining :: "uuid \<Rightarrow> inventory_purchase list \<Rightarrow> int" where
  "total_remaining pid tbl = sum_list (map remaining_quantity (lots_of pid tbl))"

definition available_cost :: "uuid \<Rightarrow> inventory_purchase list \<Rightarrow> int" where
  "available_cost pid tbl =
     sum_list (map (\<lambda>p. remaining_quantity p * unit_cost p) (lots_of pid tbl))"

definition valid_table :: "inventory_purchase list \<Rightarrow> bool" where
  "valid_table tbl = (distinct (map purchase_id tbl) \<and> list_all purchase_checks tbl)"

text \<open>The rows that the loop of \<^verbatim>\<open>allocate_inventory_on_sale\<close> visits, in its order.\<close>

definition cursor_of :: "database \<Rightarrow> uuid \<Rightarrow> inventory_purchase list" where
  "cursor_of db pid =
     (let v_method = get_inventory_costing_method db;
          rows = unconsumed pid (inventory_purchases db)
      in if v_method = ''FIFO'' then order_asc rows
         else if v_method = ''LIFO'' then order_desc rows
         else order_asc rows)"

text \<open>Lots received at the same time come in ascending, respectively descending, order of
  their ids.\<close>

definition ties_ascending :: "inventory_purchase list \<Rightarrow> bool" where
  "ties_ascending rows =
     sorted_wrt (\<lambda>a b. purchased_at a = purchased_at b \<longrightarrow> purchase_id a \<le> purchase_id b) rows"

definition ties_descending :: "inventory_purchase list \<Rightarrow> bool" where
  "ties_descending rows =
     sorted_wrt (\<lambda>a b. purchased_at a = purchased_at b \<longrightarrow> purchase_id b \<le> purchase_id a) rows"

text \<open>The remaining quantity of the lot with a given id, and the order in which an
  allocation has drawn on the lots of its cursor: a lot is drawn on only when every lot before
  it in the cursor is exhausted.\<close>

definition remaining_of :: "uuid \<Rightarrow> inventory_purchase list \<Rightarrow> int" where
  "remaining_of i tbl =
     sum_list (map remaining_quantity (filter (\<lambda>p. purchase_id p = i) tbl))"

definition drawn_in_order :: "inventory_purchase list \<Rightarrow> inventory_purchase list \<Rightarrow> bool" where
  "drawn_in_order cursor tbl' =
     sorted_wrt (\<lambda>a b. remaining_of (purchase_id b) tbl' < remaining_quantity b
                       \<longrightarrow> remaining_of (purchase_id a) tbl' = 0) cursor"

text \<open>The rows come by ascending, respectively descending, receipt time.\<close>

definition oldest_first :: "inventory_purchase list \<Rightarrow> bool" where
  "oldest_first rows = sorted_wrt (\<lambda>a b. purchased_at a \<le> purchased_at b) rows"

definition newest_first :: "inventory_purchase list \<Rightarrow> bool" where
  "newest_first rows = sorted_wrt (\<lambda>a b. purchased_at b \<le> purchased_at a) rows"

text \<open>A database whose stored costing method is the given text, recognised or not.\<close>

definition with_costing_method :: "string \<Rightarrow> database \<Rightarrow> database" where
  "with_costing_method m db =
     db\<lparr>system_settings := (system_settings db)(''inventory_costing_method'' \<mapsto> m)\<rparr>"

text \<open>The total cost under AVERAGE in the words of the specification: the weighted unit cost
  of the unconsumed lots times the quantity sold, rounded once, half up, to two places.\<close>

definition spec_average_total_cost :: "uuid \<Rightarrow> inventory_purchase list \<Rightarrow> int \<Rightarrow> decimal_10_2" where
  "spec_average_total_cost pid tbl quantitySold =
     round_half_away
       (of_int (available_cost pid tbl) / of_int (total_remaining pid tbl) * of_int quantitySold)"

text \<open>The stock counter of a product agrees with the remaining quantities of its lots.\<close>

definition in_step :: "database \<Rightarrow> uuid \<Rightarrow> bool" where
  "in_step db pid =
     (case products db pid of
        None \<Rightarrow> False
      | Some p \<Rightarrow> stock p = total_remaining pid (inventory_purchases db))"

section \<open>The worked example of the specification\<close>

text \<open>Two lots of product 1: five units at 10.00 received at time 1 and five units at 12.00
  received at time 2; the product has ten units in stock.\<close>

definition lot1 :: inventory_purchase where
  "lot1 = \<lparr>purchase_id = 1, product_id = 1, quantity = 5, unit_cost = 1000,
           remaining_quantity = 5, purchased_at = 1\<rparr>"

definition lot2 :: inventory_purchase where
  "lot2 = \<lparr>purchase_id = 2, product_id = 1, quantity = 5, unit_cost = 1200,
           remaining_quantity = 5, purchased_at = 2\<rparr>"

definition example_db :: "string \<Rightarrow> database" where
  "example_db method =
     \<lparr>products = [1 \<mapsto> \<lparr>cost = 1200, stock = 10, is_active = True, created_at = 1\<rparr>],
      inventory_purchases = [lot1, lot2],
      sale_items = [],
      system_settings = [''inventory_costing_method'' \<mapsto> method]\<rparr>"

definition example_item :: sale_item where
  "example_item =
     \<lparr>item_product_id = 1, item_quantity = 8, unit_price = 1500, cost_price = 1200\<rparr>"

definition example_env :: environment where
  "example_env = \<lparr>now = 3, new_uuid = 3\<rparr>"

text \<open>What is read back after a statement: the lots, the recorded sale lines and the stock of
  product 1.\<close>

definition observe ::
  "error + database \<Rightarrow> error + (inventory_purchase list \<times> sale_item list \<times> int option)" where
  "observe r =
     map_sum id (\<lambda>db. (inventory_purchases db, sale_items db,
                        map_option stock (products db 1))) r"

text \<open>The same two lots with arbitrary ids, in a table that holds them in any order.\<close>

definition older_lot :: "uuid \<Rightarrow> inventory_purchase" where
  "older_lot i = \<lparr>purchase_id = i, product_id = 1, quantity = 5, unit_cost = 1000,
                  remaining_quantity = 5, purchased_at = 1\<rparr>"

definition newer_lot :: "uuid \<Rightarrow> inventory_purchase" where
  "newer_lot i = \<lparr>purchase_id = i, product_id = 1, quantity = 5, unit_cost = 1200,
                  remaining_quantity = 5, purchased_at = 2\<rparr>"

definition lots_db :: "string \<Rightarrow> inventory_purchase list \<Rightarrow> database" where
  "lots_db method tbl =
     \<lparr>products = [1 \<mapsto> \<lparr>cost = 1200, stock = 10, is_active = True, created_at = 1\<rparr>],
      inventory_purchases = tbl,
      sale_items = [],
      system_settings = [''inventory_costing_method'' \<mapsto> method]\<rparr>"

text \<open>Two lots of one product received at the same time.\<close>

definition tie_a :: inventory_purchase where
  "tie_a = \<lparr>purchase_id = 1, product_id = 1, quantity = 5, unit_cost = 1000,
            remaining_quantity = 5, purchased_at = 7\<rparr>"

definition tie_b :: inventory_purchase where
  "tie_b = \<lparr>purchase_id = 2, product_id = 1, quantity = 5, unit_cost = 1200,
            remaining_quantity = 5, purchased_at = 7\<rparr>"

definition tie_db :: "string \<Rightarrow> database" where
  "tie_db method =
     \<lparr>products = [1 \<mapsto> \<lparr>cost = 1200, stock = 10, is_active = True, created_at = 7\<rparr>],
      inventory_purchases = [tie_a, tie_b],
      sale_items = [],
      system_settings = [''inventory_costing_method'' \<mapsto> method]\<rparr>"

text \<open>The ids and remaining quantities of the stored lots, and a table into which the lot
  with id 2 is inserted before the lot with id 1.\<close>

definition stored_lots :: "error + database \<Rightarrow> error + (uuid list \<times> int list)" where
  "stored_lots r =
     map_sum id (\<lambda>db. (map purchase_id (inventory_purchases db),
                        map remaining_quantity (inventory_purchases db))) r"

definition no_lots_db :: database where
  "no_lots_db = (tie_db ''FIFO'')\<lparr>inventory_purchases := []\<rparr>"

definition insert_both :: "error + database" where
  "insert_both =
     (case insert_inventory_purchase tie_b no_lots_db of
        Inl e \<Rightarrow> Inl e
      | Inr db \<Rightarrow> insert_inventory_purchase tie_a db)"

text \<open>One unit at 10.00 and two units at 11.00: the weighted unit cost is 32.00 / 3.\<close>

definition thirds_db :: database where
  "thirds_db =
     \<lparr>products = [1 \<mapsto> \<lparr>cost = 1100, stock = 3, is_active = True, created_at = 1\<rparr>],
      inventory_purchases =
        [\<lparr>purchase_id = 1, product_id = 1, quantity = 1, unit_cost = 1000,
          remaining_quantity = 1, purchased_at = 1\<rparr>,
         \<lparr>purchase_id = 2, product_id = 1, quantity = 2, unit_cost = 1100,
          remaining_quantity = 2, purchased_at = 2\<rparr>],
      sale_items = [],
      system_settings = [''inventory_costing_method'' \<mapsto> ''AVERAGE'']\<rparr>"

text \<open>The scenario of \<^verbatim>\<open>INVENTORY-VALUATION-EXPLAINED.md\<close>: purchases of 10 units at
  78,000, 15 at 80,000 and 8 at 82,000; 13 units were sold oldest first, 20 remain.\<close>

definition valuation_db :: database where
  "valuation_db =
     \<lparr>products = [1 \<mapsto> \<lparr>cost = 8200000, stock = 20, is_active = True, created_at = 1\<rparr>],
      inventory_purchases =
        [\<lparr>purchase_id = 1, product_id = 1, quantity = 10, unit_cost = 7800000,
          remaining_quantity = 0, purchased_at = 1\<rparr>,
         \<lparr>purchase_id = 2, product_id = 1, quantity = 15, unit_cost = 8000000,
          remaining_quantity = 12, purchased_at = 5\<rparr>,
         \<lparr>purchase_id = 3, product_id = 1, quantity = 8, unit_cost = 8200000,
          remaining_quantity = 8, purchased_at = 10\<rparr>],
      sale_items = [],
      system_settings = [''inventory_costing_method'' \<mapsto> ''FIFO'',
                         ''inventory_valuation_method'' \<mapsto> ''FIFO'']\<rparr>"

text \<open>Restocking the example product: a remote procedure that cannot be reached, the
  installed procedure, and what is read back afterwards (the stock, the sum of the remaining
  quantities and the remaining quantities themselves).\<close>

definition rpc_unreachable :: "uuid \<Rightarrow> int \<Rightarrow> database \<Rightarrow> error + database" where
  "rpc_unreachable target additionalStock db = Inl RpcFailed"

definition rpc_installed :: "uuid \<Rightarrow> int \<Rightarrow> database \<Rightarrow> error + database" where
  "rpc_installed = add_product_stock \<lparr>now = 3, new_uuid = 5\<rparr> \<lparr>now = 3, new_uuid = 6\<rparr>"

definition restock_env1 :: environment where
  "restock_env1 = \<lparr>now = 3, new_uuid = 3\<rparr>"

definition restock_env2 :: environment where
  "restock_env2 = \<lparr>now = 4, new_uuid = 4\<rparr>"

definition stock_and_lots ::
  "error + database \<Rightarrow> error + (int option \<times> int \<times> int list)" where
  "stock_and_lots r =
     map_sum id (\<lambda>db. (map_option stock (products db 1),
                        total_remaining 1 (inventory_purchases db),
                        map remaining_quantity (inventory_purchases db))) r"

section \<open>Auxiliary facts\<close>

subsection \<open>Rounding and the fixed-point type\<close>

lemma round_half_away_of_int [simp]: "round_half_away (of_int n) = n"
  by (simp add: round_half_away_def) linarith

lemma numeric_10_2_of_int:
  "\<bar>n\<bar> < 10 ^ 10 \<Longrightarrow> numeric_10_2 (of_int n) = Inr n"
  by (simp add: numeric_10_2_def)

lemma numeric_10_2_error: "numeric_10_2 x = Inl e \<Longrightarrow> e = NumericFieldOverflow"
  by (auto simp: numeric_10_2_def Let_def split: if_splits)

subsection \<open>Updating one lot\<close>

lemma valid_table_row:
  "valid_table tbl \<Longrightarrow> p \<in> set tbl \<Longrightarrow> purchase_checks p"
  by (simp add: valid_table_def list_all_iff)

lemma valid_table_same_id:
  "valid_table tbl \<Longrightarrow> p \<in> set tbl \<Longrightarrow> r \<in> set tbl \<Longrightarrow> purchase_id r = purchase_id p \<Longrightarrow> r = p"
proof -
  assume "valid_table tbl"
  then have "inj_on purchase_id (set tbl)" by (simp add: valid_table_def distinct_map)
  moreover assume "p \<in> set tbl" "r \<in> set tbl" "purchase_id r = purchase_id p"
  ultimately show "r = p" by (auto dest: inj_onD)
qed

lemma set_remaining_ids: "map purchase_id (set_remaining i a tbl) = map purchase_id tbl"
  by (induction tbl) (simp_all add: set_remaining_def)

lemma update_remaining_ok:
  assumes "valid_table tbl" "p \<in> set tbl" "0 \<le> a" "a \<le> remaining_quantity p"
  shows "update_remaining (purchase_id p) a tbl = Inr (set_remaining (purchase_id p) a tbl)"
proof -
  have "purchase_checks p" using assms valid_table_row by blast
  then have ok: "purchase_checks (p\<lparr>remaining_quantity := remaining_quantity p - a\<rparr>)"
    using assms(3,4) by (simp add: purchase_checks_def)
  have "\<forall>r \<in> set tbl. purchase_id r = purchase_id p \<longrightarrow> r = p"
    using assms valid_table_same_id by blast
  with ok have "list_all purchase_checks
      (filter (\<lambda>r. purchase_id r = purchase_id p) (set_remaining (purchase_id p) a tbl))"
    by (auto simp: list_all_iff set_remaining_def)
  then show ?thesis by (simp add: update_remaining_def set_remaining_def)
qed

lemma set_remaining_valid:
  assumes "valid_table tbl" "p \<in> set tbl" "0 \<le> a" "a \<le> remaining_quantity p"
  shows "valid_table (set_remaining (purchase_id p) a tbl)"
proof -
  have "purchase_checks p" using assms valid_table_row by blast
  then have ok: "purchase_checks (p\<lparr>remaining_quantity := remaining_quantity p - a\<rparr>)"
    using assms(3,4) by (simp add: purchase_checks_def)
  have same: "\<forall>r \<in> set tbl. purchase_id r = purchase_id p \<longrightarrow> r = p"
    using assms valid_table_same_id by blast
  have "list_all purchase_checks (set_remaining (purchase_id p) a tbl)"
    using ok same assms(1) by (auto simp: list_all_iff set_remaining_def valid_table_def)
  then show ?thesis using assms(1) by (simp add: valid_table_def set_remaining_ids)
qed

lemma set_remaining_other_rows:
  "r \<in> set tbl \<Longrightarrow> purchase_id r \<noteq> i \<Longrightarrow> r \<in> set (set_remaining i a tbl)"
  by (force simp: set_remaining_def)

lemma set_remaining_other_products:
  assumes "valid_table tbl" "p \<in> set tbl" "product_id p \<noteq> pid"
  shows "lots_of pid (set_remaining (purchase_id p) a tbl) = lots_of pid tbl"
proof -
  have same: "\<forall>r \<in> set tbl. purchase_id r = purchase_id p \<longrightarrow> r = p"
    using assms valid_table_same_id by blast
  then show ?thesis using assms(3) unfolding lots_of_def set_remaining_def
    by (induction tbl) auto
qed

lemma set_remaining_total_absent:
  "purchase_id p \<notin> purchase_id ` set tbl \<Longrightarrow> set_remaining (purchase_id p) a tbl = tbl"
  by (induction tbl) (auto simp: set_remaining_def)

lemma set_remaining_total:
  assumes "distinct (map purchase_id tbl)" "p \<in> set tbl" "product_id p = pid"
  shows "total_remaining pid (set_remaining (purchase_id p) a tbl) = total_remaining pid tbl - a"
  using assms
proof (induction tbl)
  case Nil
  then show ?case by simp
next
  case (Cons r tbl)
  show ?case
  proof (cases "r = p")
    case True
    then have "purchase_id p \<notin> purchase_id ` set tbl" using Cons.prems(1) by auto
    then have "set_remaining (purchase_id p) a tbl = tbl" by (rule set_remaining_total_absent)
    then have "set_remaining (purchase_id p) a (r # tbl) = p\<lparr>remaining_quantity := remaining_quantity p - a\<rparr> # tbl"
      using True by (simp add: set_remaining_def)
    then show ?thesis using True Cons.prems(3) by (simp add: total_remaining_def lots_of_def)
  next
    case False
    then have in_tbl: "p \<in> set tbl" using Cons.prems(2) by simp
    then have "purchase_id r \<noteq> purchase_id p" using Cons.prems(1) by force
    then have "set_remaining (purchase_id p) a (r # tbl) = r # set_remaining (purchase_id p) a tbl"
      by (simp add: set_remaining_def)
    moreover have "total_remaining pid (set_remaining (purchase_id p) a tbl) = total_remaining pid tbl - a"
      using Cons.IH Cons.prems in_tbl by simp
    ultimately show ?thesis by (simp add: total_remaining_def lots_of_def)
  qed
qed

lemma sum_remaining_nonneg:
  "\<forall>p\<in>set ps. 0 < remaining_quantity p \<Longrightarrow> 0 \<le> sum_list (map remaining_quantity ps)"
  by (induction ps) auto

lemma allocate_loop_result:
  assumes "valid_table tbl" "set ps \<subseteq> set tbl" "distinct ps"
    "\<forall>p\<in>set ps. product_id p = pid \<and> 0 < remaining_quantity p" "0 \<le> need"
  shows "\<exists>tbl'. allocate_loop ps need tbl
                  = Inr (need - min need (sum_list (map remaining_quantity ps)), tbl')
      \<and> valid_table tbl'
      \<and> total_remaining pid tbl'
          = total_remaining pid tbl - min need (sum_list (map remaining_quantity ps))
      \<and> (\<forall>other. other \<noteq> pid \<longrightarrow> lots_of other tbl' = lots_of other tbl)
      \<and> map purchase_id tbl' = map purchase_id tbl"
  using assms
proof (induction ps arbitrary: tbl need)
  case Nil
  then show ?case by simp
next
  case (Cons p ps)
  define a where "a = min (remaining_quantity p) need"
  define tbl1 where "tbl1 = set_remaining (purchase_id p) a tbl"
  have p_in: "p \<in> set tbl" and p_pid: "product_id p = pid" and p_pos: "0 < remaining_quantity p"
    using Cons.prems by auto
  have a_bounds: "0 \<le> a" "a \<le> remaining_quantity p"
    using p_pos Cons.prems(5) by (auto simp: a_def)
  have rest_nonneg: "0 \<le> sum_list (map remaining_quantity ps)"
    using Cons.prems(4) by (intro sum_remaining_nonneg) auto
  have upd: "update_remaining (purchase_id p) a tbl = Inr tbl1"
    unfolding tbl1_def using Cons.prems(1) p_in a_bounds by (rule update_remaining_ok)
  have valid1: "valid_table tbl1"
    unfolding tbl1_def using Cons.prems(1) p_in a_bounds by (rule set_remaining_valid)
  have total1: "total_remaining pid tbl1 = total_remaining pid tbl - a"
    unfolding tbl1_def using Cons.prems(1) p_in p_pid
    by (intro set_remaining_total) (auto simp: valid_table_def)
  have others1: "\<forall>other. other \<noteq> pid \<longrightarrow> lots_of other tbl1 = lots_of other tbl"
    unfolding tbl1_def using Cons.prems(1) p_in p_pid
    by (auto intro: set_remaining_other_products)
  have ids1: "map purchase_id tbl1 = map purchase_id tbl"
    unfolding tbl1_def by (rule set_remaining_ids)
  have unfold: "allocate_loop (p # ps) need tbl
      = (if need - a = 0 then Inr (need - a, tbl1) else allocate_loop ps (need - a) tbl1)"
    using upd unfolding a_def by (simp add: Let_def)
  show ?case
  proof (cases "need - a = 0")
    case True
    then have "need \<le> remaining_quantity p" using a_bounds by (simp add: a_def)
    then have m: "min need (sum_list (map remaining_quantity (p # ps))) = need"
      using rest_nonneg by simp
    have "allocate_loop (p # ps) need tbl = Inr (0, tbl1)"
      using unfold True by (simp del: allocate_loop.simps)
    then show ?thesis using m True valid1 total1 others1 ids1 by (simp del: allocate_loop.simps)
  next
    case False
    then have a_eq: "a = remaining_quantity p" and need': "0 \<le> need - a"
      by (auto simp: a_def min_def split: if_splits)
    have step: "allocate_loop (p # ps) need tbl = allocate_loop ps (need - a) tbl1"
      using unfold False by (simp del: allocate_loop.simps)
    have sub: "set ps \<subseteq> set tbl1"
    proof
      fix r assume r: "r \<in> set ps"
      then have "r \<in> set tbl" and "r \<noteq> p" using Cons.prems(2,3) by auto
      then have "purchase_id r \<noteq> purchase_id p"
        using valid_table_same_id [OF Cons.prems(1) p_in] by blast
      then show "r \<in> set tbl1" unfolding tbl1_def
        using \<open>r \<in> set tbl\<close> by (rule set_remaining_other_rows [rotated])
    qed
    have "\<exists>tbl'. allocate_loop ps (need - a) tbl1
                  = Inr (need - a - min (need - a) (sum_list (map remaining_quantity ps)), tbl')
      \<and> valid_table tbl'
      \<and> total_remaining pid tbl'
          = total_remaining pid tbl1 - min (need - a) (sum_list (map remaining_quantity ps))
      \<and> (\<forall>other. other \<noteq> pid \<longrightarrow> lots_of other tbl' = lots_of other tbl1)
      \<and> map purchase_id tbl' = map purchase_id tbl1"
      using Cons.prems(3,4) valid1 sub need' by (intro Cons.IH) auto
    then obtain tbl' where r:
      "allocate_loop ps (need - a) tbl1
         = Inr (need - a - min (need - a) (sum_list (map remaining_quantity ps)), tbl')"
      "valid_table tbl'"
      "total_remaining pid tbl'
         = total_remaining pid tbl1 - min (need - a) (sum_list (map remaining_quantity ps))"
      "\<forall>other. other \<noteq> pid \<longrightarrow> lots_of other tbl' = lots_of other tbl1"
      "map purchase_id tbl' = map purchase_id tbl1"
      by blast
    have m: "min need (sum_list (map remaining_quantity (p # ps)))
               = a + min (need - a) (sum_list (map remaining_quantity ps))"
      using a_eq by (simp add: min_def)
    show ?thesis
      using step r m total1 others1 ids1 by (intro exI [of _ tbl']) (simp del: allocate_loop.simps)
  qed
qed

lemma sum_list_sort_key:
  fixes f :: "'a \<Rightarrow> int" and k :: "'a \<Rightarrow> 'b::linorder"
  shows "sum_list (map f (sort_key k xs)) = sum_list (map f xs)"
proof -
  have "mset (map f (sort_key k xs)) = mset (map f xs)" by simp
  then show ?thesis by (metis sum_mset_sum_list)
qed

lemma unconsumed_sum:
  assumes "valid_table tbl"
  shows "sum_list (map remaining_quantity (unconsumed pid tbl)) = total_remaining pid tbl"
proof -
  have "\<forall>p\<in>set tbl. 0 \<le> remaining_quantity p"
    using assms by (auto simp: valid_table_def list_all_iff purchase_checks_def)
  then show ?thesis unfolding unconsumed_def total_remaining_def lots_of_def
    by (induction tbl) auto
qed

lemma cursor_of_facts:
  assumes "valid_table (inventory_purchases db)"
  shows "set (cursor_of db pid) \<subseteq> set (inventory_purchases db)"
    and "distinct (cursor_of db pid)"
    and "\<forall>p\<in>set (cursor_of db pid). product_id p = pid \<and> 0 < remaining_quantity p"
    and "sum_list (map remaining_quantity (cursor_of db pid))
           = total_remaining pid (inventory_purchases db)"
proof -
  have d: "distinct (unconsumed pid (inventory_purchases db))"
    using assms by (simp add: valid_table_def unconsumed_def distinct_map)
  show "set (cursor_of db pid) \<subseteq> set (inventory_purchases db)"
    by (auto simp: cursor_of_def Let_def order_asc_def order_desc_def unconsumed_def)
  show "distinct (cursor_of db pid)"
    using d by (simp add: cursor_of_def Let_def order_asc_def order_desc_def)
  show "\<forall>p\<in>set (cursor_of db pid). product_id p = pid \<and> 0 < remaining_quantity p"
    by (auto simp: cursor_of_def Let_def order_asc_def order_desc_def unconsumed_def)
  show "sum_list (map remaining_quantity (cursor_of db pid))
           = total_remaining pid (inventory_purchases db)"
    using unconsumed_sum [OF assms, of pid]
    by (simp add: cursor_of_def Let_def order_asc_def order_desc_def sum_list_sort_key)
qed

lemma allocate_inventory_on_sale_cursor:
  "allocate_inventory_on_sale pid q db =
     (case allocate_loop (cursor_of db pid) q (inventory_purchases db) of
        Inl e \<Rightarrow> Inl e
      | Inr (rest, tbl') \<Rightarrow>
          if rest > 0 then Inl (InsufficientInventoryToAllocate rest)
          else Inr (db\<lparr>inventory_purchases := tbl'\<rparr>))"
  by (simp add: allocate_inventory_on_sale_def cursor_of_def Let_def)

lemma allocate_walk:
  assumes "valid_table (inventory_purchases db)" "0 \<le> q"
  shows "\<exists>tbl'. allocate_loop (cursor_of db pid) q (inventory_purchases db)
                  = Inr (q - min q (total_remaining pid (inventory_purchases db)), tbl')
      \<and> valid_table tbl'
      \<and> total_remaining pid tbl'
          = total_remaining pid (inventory_purchases db)
            - min q (total_remaining pid (inventory_purchases db))
      \<and> (\<forall>other. other \<noteq> pid \<longrightarrow> lots_of other tbl' = lots_of other (inventory_purchases db))
      \<and> map purchase_id tbl' = map purchase_id (inventory_purchases db)"
  using allocate_loop_result [OF assms(1) cursor_of_facts(1-3) [OF assms(1)] assms(2), of pid]
  by (simp add: cursor_of_facts(4) [OF assms(1)])

lemma total_remaining_nonneg:
  assumes "valid_table tbl"
  shows "0 \<le> total_remaining pid tbl"
proof -
  have "\<forall>p\<in>set tbl. 0 \<le> remaining_quantity p"
    using assms by (auto simp: valid_table_def list_all_iff purchase_checks_def)
  then show ?thesis unfolding total_remaining_def lots_of_def
    by (induction tbl) auto
qed

lemma total_remaining_zero:
  assumes "valid_table tbl" "total_remaining pid tbl = 0" "p \<in> set tbl" "product_id p = pid"
  shows "remaining_quantity p = 0"
proof -
  have "\<forall>x\<in>set (map remaining_quantity (lots_of pid tbl)). 0 \<le> x"
    using assms(1) by (auto simp: valid_table_def list_all_iff purchase_checks_def lots_of_def)
  moreover have "sum_list (map remaining_quantity (lots_of pid tbl)) = 0"
    using assms(2) by (simp add: total_remaining_def)
  ultimately have "\<forall>x\<in>set (map remaining_quantity (lots_of pid tbl)). x = 0"
    using sum_list_nonneg_eq_0_iff [of "map remaining_quantity (lots_of pid tbl)"] by blast
  then show ?thesis using assms(3,4) by (simp add: lots_of_def)
qed

subsection \<open>The cost loop\<close>

lemma cost_loop_error:
  "cost_loop ps need acc = Inl e \<Longrightarrow> e = NumericFieldOverflow"
proof (induction ps arbitrary: need acc)
  case Nil
  then show ?case by simp
next
  case (Cons p ps)
  then show ?case
    by (auto simp: Let_def split: sum.splits if_splits dest: numeric_10_2_error)
qed

lemma calculate_sale_cost_error:
  "calculate_sale_cost db pid q = Inl e \<Longrightarrow> e = NumericFieldOverflow"
  by (auto simp: calculate_sale_cost_def average_cost_def Let_def
      split: sum.splits if_splits dest: numeric_10_2_error cost_loop_error)

lemma cost_sum_nonneg:
  "\<forall>p\<in>set ps. 0 < remaining_quantity p \<and> 0 \<le> unit_cost p \<Longrightarrow>
   0 \<le> sum_list (map (\<lambda>p. remaining_quantity p * unit_cost p) ps)"
  by (induction ps) auto

lemma cost_loop_exhausts:
  assumes "\<forall>p\<in>set ps. 0 < remaining_quantity p \<and> 0 \<le> unit_cost p"
    "sum_list (map remaining_quantity ps) < need" "0 \<le> acc"
    "acc + sum_list (map (\<lambda>p. remaining_quantity p * unit_cost p) ps) < 10 ^ 10"
  shows "cost_loop ps need acc
           = Inr (acc + sum_list (map (\<lambda>p. remaining_quantity p * unit_cost p) ps))"
  using assms
proof (induction ps arbitrary: need acc)
  case Nil
  then show ?case by simp
next
  case (Cons p ps)
  let ?acc' = "acc + remaining_quantity p * unit_cost p"
  have pos: "0 < remaining_quantity p" "0 \<le> unit_cost p" using Cons.prems(1) by auto
  have rest: "0 \<le> sum_list (map remaining_quantity ps)"
    using Cons.prems(1) by (intro sum_remaining_nonneg) auto
  have rest_cost: "0 \<le> sum_list (map (\<lambda>p. remaining_quantity p * unit_cost p) ps)"
    using Cons.prems(1) by (intro cost_sum_nonneg) auto
  have m: "min (remaining_quantity p) need = remaining_quantity p"
    using Cons.prems(2) rest by simp
  have step_nonneg: "0 \<le> remaining_quantity p * unit_cost p" using pos by simp
  have "\<bar>?acc'\<bar> < 10 ^ 10"
    using Cons.prems(3,4) rest_cost step_nonneg by simp
  then have n: "numeric_10_2 (of_int ?acc') = Inr ?acc'" by (rule numeric_10_2_of_int)
  have more: "need - remaining_quantity p \<noteq> 0" using Cons.prems(2) rest by simp
  have "cost_loop (p # ps) need acc = cost_loop ps (need - remaining_quantity p) ?acc'"
    using m n more by (simp add: Let_def)
  also have "\<dots> = Inr (?acc' + sum_list (map (\<lambda>p. remaining_quantity p * unit_cost p) ps))"
    using Cons.prems step_nonneg by (intro Cons.IH) auto
  finally show ?case by (simp add: add.assoc)
qed

subsection \<open>The order of the cursor\<close>

lemma order_asc_sorted:
  "sorted_wrt (\<lambda>a b. purchased_at a < purchased_at b
                    \<or> purchased_at a = purchased_at b \<and> purchase_id a \<le> purchase_id b)
     (order_asc rows)"
proof -
  have "sorted (map (\<lambda>p. (purchased_at p, int (purchase_id p))) (order_asc rows))"
    unfolding order_asc_def by (rule sorted_sort_key)
  then have "sorted_wrt (\<lambda>a b. (purchased_at a, int (purchase_id a))
                                 \<le> (purchased_at b, int (purchase_id b))) (order_asc rows)"
    by (simp add: sorted_map)
  then show ?thesis
    by (rule sorted_wrt_mono_rel [rotated]) auto
qed

lemma order_desc_sorted:
  "sorted_wrt (\<lambda>a b. purchased_at b < purchased_at a
                    \<or> purchased_at a = purchased_at b \<and> purchase_id b \<le> purchase_id a)
     (order_desc rows)"
proof -
  have "sorted (map (\<lambda>p. (- purchased_at p, - int (purchase_id p))) (order_desc rows))"
    unfolding order_desc_def by (rule sorted_sort_key)
  then have "sorted_wrt (\<lambda>a b. (- purchased_at a, - int (purchase_id a))
                                 \<le> (- purchased_at b, - int (purchase_id b))) (order_desc rows)"
    by (simp add: sorted_map)
  then show ?thesis
    by (rule sorted_wrt_mono_rel [rotated]) auto
qed

lemma sort_key_permutation:
  fixes k :: "'a \<Rightarrow> 'b::linorder"
  assumes "mset ys = mset xs" "distinct xs" "inj_on k (set xs)"
  shows "sort_key k ys = sort_key k xs"
proof -
  have sets: "set ys = set xs" using assms(1) by (rule mset_eq_setD)
  have dys: "distinct ys" using assms(1,2) mset_eq_imp_distinct_iff by blast
  have "map k (sort_key k ys) = map k (sort_key k xs)"
  proof (rule sorted_distinct_set_unique)
    show "sorted (map k (sort_key k ys))" by (rule sorted_sort_key)
    show "sorted (map k (sort_key k xs))" by (rule sorted_sort_key)
    show "distinct (map k (sort_key k ys))"
      using dys assms(3) sets by (simp add: distinct_map)
    show "distinct (map k (sort_key k xs))"
      using assms(2,3) by (simp add: distinct_map)
    show "set (map k (sort_key k ys)) = set (map k (sort_key k xs))"
      using sets by simp
  qed
  moreover have "inj_on k (set (sort_key k ys) \<union> set (sort_key k xs))"
    using assms(3) sets by simp
  ultimately show ?thesis by (simp add: inj_on_map_eq_map)
qed

lemma unconsumed_permutation:
  assumes "mset tbl' = mset tbl" "distinct (map purchase_id tbl)"
  shows "order_asc (unconsumed pid tbl') = order_asc (unconsumed pid tbl)"
    and "order_desc (unconsumed pid tbl') = order_desc (unconsumed pid tbl)"
proof -
  have m: "mset (unconsumed pid tbl') = mset (unconsumed pid tbl)"
    using assms(1) by (simp add: unconsumed_def)
  have d: "distinct (unconsumed pid tbl)"
    using assms(2) by (simp add: unconsumed_def distinct_map)
  have inj: "inj_on purchase_id (set (unconsumed pid tbl))"
    using assms(2) by (auto simp: unconsumed_def distinct_map intro: inj_on_subset)
  have "inj_on (\<lambda>p. (purchased_at p, int (purchase_id p))) (set (unconsumed pid tbl))"
    using inj by (auto simp: inj_on_def)
  then show "order_asc (unconsumed pid tbl') = order_asc (unconsumed pid tbl)"
    unfolding order_asc_def using m d by (intro sort_key_permutation)
  have "inj_on (\<lambda>p. (- purchased_at p, - int (purchase_id p))) (set (unconsumed pid tbl))"
    using inj by (auto simp: inj_on_def)
  then show "order_desc (unconsumed pid tbl') = order_desc (unconsumed pid tbl)"
    unfolding order_desc_def using m d by (intro sort_key_permutation)
qed

subsection \<open>The stored method and the weighted average\<close>

lemma get_method_with [simp]:
  "get_inventory_costing_method (with_costing_method m db) = m"
  by (simp add: get_inventory_costing_method_def with_costing_method_def)

lemma purchases_with [simp]:
  "inventory_purchases (with_costing_method m db) = inventory_purchases db"
  by (simp add: with_costing_method_def)

lemma unconsumed_cost_sum:
  assumes "valid_table tbl"
  shows "sum_list (map (\<lambda>p. remaining_quantity p * unit_cost p) (unconsumed pid tbl))
           = available_cost pid tbl"
proof -
  have "\<forall>p\<in>set tbl. 0 \<le> remaining_quantity p"
    using assms by (auto simp: valid_table_def list_all_iff purchase_checks_def)
  then show ?thesis unfolding unconsumed_def available_cost_def lots_of_def
    by (induction tbl) auto
qed

lemma weighted_average_unconsumed:
  assumes "valid_table tbl" "0 < total_remaining pid tbl"
  shows "weighted_average (unconsumed pid tbl)
           = of_int (available_cost pid tbl) / of_int (total_remaining pid tbl)"
proof -
  have s: "sum_list (map remaining_quantity (unconsumed pid tbl)) = total_remaining pid tbl"
    using assms(1) by (rule unconsumed_sum)
  then have "unconsumed pid tbl \<noteq> []" using assms(2) by auto
  then show ?thesis using s assms(2) unconsumed_cost_sum [OF assms(1), of pid]
    by (simp add: weighted_average_def)
qed

lemma round_half_away_nonneg: "0 \<le> x \<Longrightarrow> 0 \<le> round_half_away x"
  by (simp add: round_half_away_def)

lemma available_cost_nonneg:
  assumes "valid_table tbl"
  shows "0 \<le> available_cost pid tbl"
proof -
  have "\<forall>p\<in>set tbl. 0 \<le> remaining_quantity p \<and> 0 \<le> unit_cost p"
    using assms by (auto simp: valid_table_def list_all_iff purchase_checks_def)
  then show ?thesis unfolding available_cost_def lots_of_def
    by (induction tbl) auto
qed

lemma average_branch_value:
  assumes "valid_table (inventory_purchases db)"
    and "get_inventory_costing_method db \<noteq> ''FIFO''"
    and "get_inventory_costing_method db \<noteq> ''LIFO''"
    and "0 < q" and "0 < total_remaining pid (inventory_purchases db)"
    and "round_half_away (of_int (available_cost pid (inventory_purchases db))
                          / of_int (total_remaining pid (inventory_purchases db))) * q < 10 ^ 10"
  shows "calculate_sale_cost db pid q
           = Inr (round_half_away (of_int (available_cost pid (inventory_purchases db))
                                   / of_int (total_remaining pid (inventory_purchases db))) * q)"
proof -
  let ?tbl = "inventory_purchases db"
  let ?avg = "of_int (available_cost pid ?tbl) / of_int (total_remaining pid ?tbl) :: rat"
  let ?u = "round_half_away ?avg"
  have w: "weighted_average (unconsumed pid ?tbl) = ?avg"
    using assms(1,5) by (rule weighted_average_unconsumed)
  have "0 \<le> ?avg" using available_cost_nonneg [OF assms(1), of pid] assms(5) by simp
  then have u0: "0 \<le> ?u" by (rule round_half_away_nonneg)
  have "?u * 1 \<le> ?u * q" using u0 assms(4) by (intro mult_left_mono) auto
  then have u1: "\<bar>?u\<bar> < 10 ^ 10" using u0 assms(6) by simp
  have uq0: "0 \<le> ?u * q" using u0 assms(4) by simp
  have n1: "numeric_10_2 ?avg = Inr ?u" using u1 by (simp add: numeric_10_2_def)
  have n2: "numeric_10_2 (of_int (?u * q)) = Inr (?u * q)"
    using uq0 assms(6) by (intro numeric_10_2_of_int) simp
  have "average_cost (unconsumed pid ?tbl) q = Inr (?u * q)"
    unfolding average_cost_def w n1 using n2 by simp
  then show ?thesis using assms(2,3) by (simp add: calculate_sale_cost_def del: of_int_mult)
qed

lemma loop_branch_value:
  assumes "valid_table (inventory_purchases db)"
    and "total_remaining pid (inventory_purchases db) < q"
    and "available_cost pid (inventory_purchases db) < 10 ^ 10"
    and "set rows = set (unconsumed pid (inventory_purchases db))"
    and "sum_list (map remaining_quantity rows)
           = sum_list (map remaining_quantity (unconsumed pid (inventory_purchases db)))"
    and "sum_list (map (\<lambda>p. remaining_quantity p * unit_cost p) rows)
           = sum_list (map (\<lambda>p. remaining_quantity p * unit_cost p)
                         (unconsumed pid (inventory_purchases db)))"
  shows "cost_loop rows q 0 = Inr (available_cost pid (inventory_purchases db))"
proof -
  let ?tbl = "inventory_purchases db"
  have rows: "\<forall>p\<in>set rows. 0 < remaining_quantity p \<and> 0 \<le> unit_cost p"
    using assms(1,4) by (auto simp: unconsumed_def valid_table_def list_all_iff purchase_checks_def)
  have qty: "sum_list (map remaining_quantity rows) < q"
    using assms(2,5) unconsumed_sum [OF assms(1), of pid] by simp
  have cst: "sum_list (map (\<lambda>p. remaining_quantity p * unit_cost p) rows) = available_cost pid ?tbl"
    using assms(6) unconsumed_cost_sum [OF assms(1), of pid] by simp
  have "cost_loop rows q 0 = Inr (0 + sum_list (map (\<lambda>p. remaining_quantity p * unit_cost p) rows))"
    using rows qty assms(3) cst by (intro cost_loop_exhausts) auto
  then show ?thesis using cst by simp
qed

subsection \<open>Recorded sale lines and the stock counter\<close>

lemma insert_inventory_purchase_sale_items:
  "insert_inventory_purchase p db = Inr db' \<Longrightarrow> sale_items db' = sale_items db"
  by (auto simp: insert_inventory_purchase_def split: if_splits option.splits)

lemma update_products_stock_sale_items:
  "update_products_stock env target f db = Inr db' \<Longrightarrow> sale_items db' = sale_items db"
  by (auto simp: update_products_stock_def record_inventory_purchase_def Let_def
      split: option.splits if_splits dest!: insert_inventory_purchase_sale_items)

lemma allocate_inventory_on_sale_sale_items:
  "allocate_inventory_on_sale pid q db = Inr db' \<Longrightarrow> sale_items db' = sale_items db"
  by (auto simp: allocate_inventory_on_sale_def Let_def split: sum.splits if_splits)

lemma total_remaining_append:
  "total_remaining pid (tbl @ [p])
     = total_remaining pid tbl + (if product_id p = pid then remaining_quantity p else 0)"
  by (simp add: total_remaining_def lots_of_def)

lemma sale_keeps_stock_in_step:
  assumes "valid_table (inventory_purchases db)" and "in_step db (item_product_id new)"
    and "insert_sale_item env new db = Inr db'"
  shows "in_step db' (item_product_id new) \<and> valid_table (inventory_purchases db')"
proof -
  let ?pid = "item_product_id new" and ?q = "item_quantity new"
  let ?tbl = "inventory_purchases db"
  obtain p where p: "products db ?pid = Some p" and inv: "stock p = total_remaining ?pid ?tbl"
    using assms(2) by (auto simp: in_step_def split: option.splits)
  obtain new' db2 where trig: "check_and_allocate_inventory env new db = Inr (new', db2)"
    and chk: "item_quantity new' > 0"
    and db': "db' = db2\<lparr>sale_items := sale_items db2 @ [new']\<rparr>"
    using assms(3) by (auto simp: insert_sale_item_def split: sum.splits if_splits)
  obtain c db1 where enough: "\<not> stock p < ?q"
    and a: "allocate_inventory_on_sale ?pid ?q db = Inr db1"
    and u: "update_products_stock env ?pid (\<lambda>s. s - ?q) db1 = Inr db2"
    and n: "new' = new\<lparr>cost_price := c\<rparr>"
    using trig p
    by (auto simp: check_and_allocate_inventory_def split: sum.splits if_splits)
  have q: "0 < ?q" using chk n by simp
  obtain tbl' where w:
    "allocate_loop (cursor_of db ?pid) ?q ?tbl = Inr (?q - min ?q (total_remaining ?pid ?tbl), tbl')"
    "valid_table tbl'"
    "total_remaining ?pid tbl' = total_remaining ?pid ?tbl - min ?q (total_remaining ?pid ?tbl)"
    using allocate_walk [OF assms(1), of ?q ?pid] q by auto
  have m: "min ?q (total_remaining ?pid ?tbl) = ?q" using enough inv by simp
  have db1: "db1 = db\<lparr>inventory_purchases := tbl'\<rparr>"
    using a w(1) m by (simp add: allocate_inventory_on_sale_cursor)
  have db2: "db2 = db1\<lparr>products := (products db1)(?pid \<mapsto> p\<lparr>stock := stock p - ?q\<rparr>)\<rparr>"
    using u p q enough db1
    by (auto simp: update_products_stock_def record_inventory_purchase_def Let_def
        split: if_splits)
  have "in_step db' ?pid"
    using db' db2 db1 w(3) m inv by (simp add: in_step_def)
  moreover have "valid_table (inventory_purchases db')"
    using db' db2 db1 w(2) by simp
  ultimately show ?thesis by simp
qed

lemma new_product_is_in_step:
  assumes "\<forall>l\<in>set (inventory_purchases db). product_id l \<noteq> new_id"
    and "insert_product env new_id new db = Inr db'"
  shows "in_step db' new_id"
proof -
  have none: "total_remaining new_id (inventory_purchases db) = 0"
    using assms(1) unfolding total_remaining_def lots_of_def
    by (induction "inventory_purchases db") (auto simp: filter_empty_conv)
  show ?thesis
    using assms(2) none
    by (auto simp: insert_product_def record_initial_inventory_purchase_def
        insert_inventory_purchase_def in_step_def total_remaining_append
        split: option.splits if_splits)
qed

lemma stock_update_keeps_stock_in_step:
  assumes "in_step db target"
    and "update_products_stock env target f db = Inr db'"
    and "\<forall>s. s \<le> f s"
  shows "in_step db' target"
proof -
  obtain old where old: "products db target = Some old"
    and inv: "stock old = total_remaining target (inventory_purchases db)"
    using assms(1) by (auto simp: in_step_def split: option.splits)
  have "stock old \<le> f (stock old)" using assms(3) by simp
  then show ?thesis
    using assms(2) old inv
    by (auto simp: update_products_stock_def record_inventory_purchase_def Let_def
        insert_inventory_purchase_def in_step_def total_remaining_append
        split: option.splits if_splits)
qed

subsection \<open>The order in which the lots are drawn on\<close>

lemma remaining_of_row:
  assumes "valid_table tbl" "r \<in> set tbl"
  shows "remaining_of (purchase_id r) tbl = remaining_quantity r"
proof -
  have "distinct (map purchase_id tbl)" using assms(1) by (simp add: valid_table_def)
  then show ?thesis using assms(2) unfolding remaining_of_def
  proof (induction tbl)
    case Nil
    then show ?case by simp
  next
    case (Cons x tbl)
    show ?case
    proof (cases "r = x")
      case True
      have "purchase_id x \<notin> purchase_id ` set tbl" using Cons.prems(1) by simp
      then have "\<forall>p\<in>set tbl. purchase_id p \<noteq> purchase_id r" using True by (metis imageI)
      then have "filter (\<lambda>p. purchase_id p = purchase_id r) tbl = []"
        by (simp add: filter_empty_conv)
      then show ?thesis using True by simp
    next
      case False
      then have "r \<in> set tbl" using Cons.prems(2) by simp
      moreover have "purchase_id x \<noteq> purchase_id r" using Cons.prems(1) calculation by force
      ultimately show ?thesis using Cons by simp
    qed
  qed
qed

lemma remaining_of_set_other:
  "i \<noteq> j \<Longrightarrow> remaining_of i (set_remaining j a tbl) = remaining_of i tbl"
  unfolding remaining_of_def set_remaining_def by (induction tbl) auto

lemma remaining_of_set_same:
  assumes "valid_table tbl" "p \<in> set tbl" "0 \<le> a" "a \<le> remaining_quantity p"
  shows "remaining_of (purchase_id p) (set_remaining (purchase_id p) a tbl)
           = remaining_quantity p - a"
proof -
  have v: "valid_table (set_remaining (purchase_id p) a tbl)"
    using assms by (rule set_remaining_valid)
  have "p\<lparr>remaining_quantity := remaining_quantity p - a\<rparr> \<in> set (set_remaining (purchase_id p) a tbl)"
    using assms(2) by (force simp: set_remaining_def)
  from remaining_of_row [OF v this] show ?thesis by simp
qed

lemma allocate_loop_frame:
  assumes "valid_table tbl" "set ps \<subseteq> set tbl" "distinct ps"
    "\<forall>p\<in>set ps. 0 < remaining_quantity p" "0 \<le> need"
    "allocate_loop ps need tbl = Inr (rest, tbl')"
    "i \<notin> purchase_id ` set ps"
  shows "remaining_of i tbl' = remaining_of i tbl"
  using assms
proof (induction ps arbitrary: tbl need)
  case Nil
  then show ?case by simp
next
  case (Cons p ps)
  define a where "a = min (remaining_quantity p) need"
  define tbl1 where "tbl1 = set_remaining (purchase_id p) a tbl"
  have p_in: "p \<in> set tbl" and p_pos: "0 < remaining_quantity p"
    using Cons.prems by auto
  have a_bounds: "0 \<le> a" "a \<le> remaining_quantity p"
    using p_pos Cons.prems(5) by (auto simp: a_def)
  have upd: "update_remaining (purchase_id p) a tbl = Inr tbl1"
    unfolding tbl1_def using Cons.prems(1) p_in a_bounds by (rule update_remaining_ok)
  have valid1: "valid_table tbl1"
    unfolding tbl1_def using Cons.prems(1) p_in a_bounds by (rule set_remaining_valid)
  have i_p: "i \<noteq> purchase_id p" using Cons.prems(7) by auto
  have first: "remaining_of i tbl1 = remaining_of i tbl"
    unfolding tbl1_def using i_p by (rule remaining_of_set_other)
  have unfold: "allocate_loop (p # ps) need tbl
      = (if need - a = 0 then Inr (need - a, tbl1) else allocate_loop ps (need - a) tbl1)"
    using upd unfolding a_def by (simp add: Let_def)
  show ?case
  proof (cases "need - a = 0")
    case True
    then have "tbl' = tbl1" using unfold Cons.prems(6) by (simp del: allocate_loop.simps)
    then show ?thesis using first by simp
  next
    case False
    then have need': "0 \<le> need - a" by (auto simp: a_def min_def split: if_splits)
    have step: "allocate_loop ps (need - a) tbl1 = Inr (rest, tbl')"
      using unfold False Cons.prems(6) by (simp del: allocate_loop.simps)
    have sub: "set ps \<subseteq> set tbl1"
    proof
      fix r assume r: "r \<in> set ps"
      then have "r \<in> set tbl" and "r \<noteq> p" using Cons.prems(2,3) by auto
      then have "purchase_id r \<noteq> purchase_id p"
        using valid_table_same_id [OF Cons.prems(1) p_in] by blast
      then show "r \<in> set tbl1" unfolding tbl1_def
        using \<open>r \<in> set tbl\<close> by (rule set_remaining_other_rows [rotated])
    qed
    have "remaining_of i tbl' = remaining_of i tbl1"
      using valid1 sub Cons.prems(3,4,7) need' step by (intro Cons.IH) auto
    then show ?thesis using first by simp
  qed
qed

lemma allocate_loop_in_order:
  assumes "valid_table tbl" "set ps \<subseteq> set tbl" "distinct ps"
    "\<forall>p\<in>set ps. 0 < remaining_quantity p" "0 \<le> need"
    "allocate_loop ps need tbl = Inr (rest, tbl')"
  shows "drawn_in_order ps tbl'"
  using assms
proof (induction ps arbitrary: tbl need)
  case Nil
  then show ?case by (simp add: drawn_in_order_def)
next
  case (Cons p ps)
  define a where "a = min (remaining_quantity p) need"
  define tbl1 where "tbl1 = set_remaining (purchase_id p) a tbl"
  have p_in: "p \<in> set tbl" and p_pos: "0 < remaining_quantity p"
    using Cons.prems by auto
  have a_bounds: "0 \<le> a" "a \<le> remaining_quantity p"
    using p_pos Cons.prems(5) by (auto simp: a_def)
  have upd: "update_remaining (purchase_id p) a tbl = Inr tbl1"
    unfolding tbl1_def using Cons.prems(1) p_in a_bounds by (rule update_remaining_ok)
  have valid1: "valid_table tbl1"
    unfolding tbl1_def using Cons.prems(1) p_in a_bounds by (rule set_remaining_valid)
  have p1: "remaining_of (purchase_id p) tbl1 = remaining_quantity p - a"
    unfolding tbl1_def using Cons.prems(1) p_in a_bounds by (rule remaining_of_set_same)
  have sub: "set ps \<subseteq> set tbl1"
  proof
    fix r assume r: "r \<in> set ps"
    then have "r \<in> set tbl" and "r \<noteq> p" using Cons.prems(2,3) by auto
    then have "purchase_id r \<noteq> purchase_id p"
      using valid_table_same_id [OF Cons.prems(1) p_in] by blast
    then show "r \<in> set tbl1" unfolding tbl1_def
      using \<open>r \<in> set tbl\<close> by (rule set_remaining_other_rows [rotated])
  qed
  have p_not: "purchase_id p \<notin> purchase_id ` set ps"
  proof
    assume "purchase_id p \<in> purchase_id ` set ps"
    then obtain r where r: "r \<in> set ps" "purchase_id r = purchase_id p" by auto
    then have "r \<in> set tbl" using Cons.prems(2) by auto
    then have "r = p" using valid_table_same_id [OF Cons.prems(1) p_in] r(2) by blast
    then show False using r(1) Cons.prems(3) by simp
  qed
  have unfold: "allocate_loop (p # ps) need tbl
      = (if need - a = 0 then Inr (need - a, tbl1) else allocate_loop ps (need - a) tbl1)"
    using upd unfolding a_def by (simp add: Let_def)
  show ?case
  proof (cases "need - a = 0")
    case True
    then have t: "tbl' = tbl1" using unfold Cons.prems(6) by (simp del: allocate_loop.simps)
    have untouched: "\<forall>b\<in>set ps. remaining_of (purchase_id b) tbl' = remaining_quantity b"
      using remaining_of_row [OF valid1] sub t by auto
    then have "sorted_wrt (\<lambda>a b. remaining_of (purchase_id b) tbl' < remaining_quantity b
                       \<longrightarrow> remaining_of (purchase_id a) tbl' = 0) ps"
      by (auto simp: sorted_wrt_iff_nth_less)
    then show ?thesis using untouched by (simp add: drawn_in_order_def)
  next
    case False
    then have a_eq: "a = remaining_quantity p" and need': "0 \<le> need - a"
      by (auto simp: a_def min_def split: if_splits)
    have step: "allocate_loop ps (need - a) tbl1 = Inr (rest, tbl')"
      using unfold False Cons.prems(6) by (simp del: allocate_loop.simps)
    have rec: "drawn_in_order ps tbl'"
      using valid1 sub Cons.prems(3,4) need' step by (intro Cons.IH) auto
    have "remaining_of (purchase_id p) tbl' = remaining_of (purchase_id p) tbl1"
      using valid1 sub Cons.prems(3,4) need' step p_not by (intro allocate_loop_frame) auto
    then have "remaining_of (purchase_id p) tbl' = 0" using p1 a_eq by simp
    then show ?thesis using rec by (simp add: drawn_in_order_def)
  qed
qed

lemma order_asc_oldest_first: "oldest_first (order_asc rows)"
  unfolding oldest_first_def
  by (rule sorted_wrt_mono_rel [OF _ order_asc_sorted]) auto

lemma order_desc_newest_first: "newest_first (order_desc rows)"
  unfolding newest_first_def
  by (rule sorted_wrt_mono_rel [OF _ order_desc_sorted]) auto

lemma order_asc_ties: "ties_ascending (order_asc rows)"
  unfolding ties_ascending_def
  by (rule sorted_wrt_mono_rel [OF _ order_asc_sorted]) auto

lemma order_desc_ties: "ties_descending (order_desc rows)"
  unfolding ties_descending_def
  by (rule sorted_wrt_mono_rel [OF _ order_desc_sorted]) auto

lemma cursor_of_rows: "set (cursor_of db pid) = set (unconsumed pid (inventory_purchases db))"
  by (simp add: cursor_of_def Let_def order_asc_def order_desc_def)

lemma calculate_sale_cost_loop:
  assumes "get_inventory_costing_method db = ''FIFO'' \<or> get_inventory_costing_method db = ''LIFO''"
  shows "calculate_sale_cost db pid q = cost_loop (cursor_of db pid) q 0"
proof -
  have "(case r of Inl e \<Rightarrow> Inl e | Inr v \<Rightarrow> Inr (round_half_away (of_int v))) = r"
    for r :: "error + int" by (cases r) simp_all
  then show ?thesis using assms
    by (auto simp: calculate_sale_cost_def cursor_of_def Let_def)
qed

lemma allocation_drawn_in_order:
  assumes "valid_table (inventory_purchases db)" "0 \<le> q"
    "allocate_inventory_on_sale pid q db = Inr db'"
  shows "drawn_in_order (cursor_of db pid) (inventory_purchases db')"
proof -
  obtain rest tbl' where loop:
    "allocate_loop (cursor_of db pid) q (inventory_purchases db) = Inr (rest, tbl')"
    and db': "db' = db\<lparr>inventory_purchases := tbl'\<rparr>"
    using assms(3)
    by (auto simp: allocate_inventory_on_sale_cursor split: sum.splits if_splits)
  have "drawn_in_order (cursor_of db pid) tbl'"
    using assms(1) cursor_of_facts(1,2) [OF assms(1)] _ assms(2) loop
  proof (rule allocate_loop_in_order)
    show "\<forall>p\<in>set (cursor_of db pid). 0 < remaining_quantity p"
      using cursor_of_facts(3) [OF assms(1)] by blast
  qed
  then show ?thesis using db' by simp
qed

lemma cursor_of_permutation:
  assumes "distinct (map purchase_id (inventory_purchases db))"
    "mset (inventory_purchases db2) = mset (inventory_purchases db)"
    "get_inventory_costing_method db2 = get_inventory_costing_method db"
  shows "cursor_of db2 pid = cursor_of db pid"
  using unconsumed_permutation [OF assms(2,1), of pid] assms(3)
  by (simp add: cursor_of_def Let_def)

subsection \<open>Unfolding a sale on concrete lots\<close>

lemma round_half_away_numeral: "round_half_away (numeral n) = numeral n"
  using round_half_away_of_int [of "numeral n"] by simp

lemma round_half_away_zero: "round_half_away 0 = 0"
  using round_half_away_of_int [of 0] by simp

lemmas sale_unfold =
  insert_sale_item_def check_and_allocate_inventory_def update_products_stock_def
  record_inventory_purchase_def allocate_inventory_on_sale_def update_remaining_def
  set_remaining_def purchase_checks_def calculate_sale_cost_def
  get_inventory_costing_method_def unconsumed_def order_asc_def order_desc_def
  numeric_10_2_def observe_def lots_db_def older_lot_def newer_lot_def example_item_def

section \<open>Properties\<close>

subsection \<open>Stock and lots in step\<close>

text \<open>Inserting a product, raising its stock by an update and recording a sale keep the stock
  counter of the product equal to the sum of the remaining quantities of its lots; these are
  the facts \<open>new_product_is_in_step\<close>, \<open>stock_update_keeps_stock_in_step\<close> and
  \<open>sale_keeps_stock_in_step\<close> above.\<close>

text \<open>C1. Restocking through \<^verbatim>\<open>updateProductStock\<close> does not keep them equal. On the
  example database (stock 10, lots 5 and 5) a restock of 3 units whose remote call failed
  runs the manual fallback and leaves a stock of 13 and lots that sum to 16: the update fires
  the trigger that records a lot of 3, and the fallback inserts a second lot of 3. The
  installed remote procedure does the same. With an amount of -2, which the remote procedure
  rejects, the fallback lowers the stock to 8, the insert of the lot fails its check
  unnoticed, and the lots still sum to 10.\<close>

theorem manual_restock_breaks_invariant:
  "in_step (example_db ''FIFO'') 1
   \<and> stock_and_lots (Inr (example_db ''FIFO'')) = Inr (Some 10, 10, [5, 5])
   \<and> stock_and_lots
        (updateProductStock rpc_unreachable restock_env1 restock_env2 1 3 (example_db ''FIFO''))
       = Inr (Some 13, 16, [5, 5, 3, 3])
   \<and> stock_and_lots
        (updateProductStock rpc_installed restock_env1 restock_env2 1 3 (example_db ''FIFO''))
       = Inr (Some 13, 16, [5, 5, 3, 3])
   \<and> stock_and_lots (rpc_installed 1 (- 2) (example_db ''FIFO''))
       = Inl AdditionalStockNotPositive
   \<and> stock_and_lots
        (updateProductStock rpc_installed restock_env1 restock_env2 1 (- 2) (example_db ''FIFO''))
       = Inr (Some 8, 10, [5, 5])"
  by code_simp

subsection \<open>The depletion boundary\<close>

text \<open>C2. On a table that satisfies its primary key and checks, a request for more than the
  total remaining quantity of the product's lots makes \<^verbatim>\<open>allocate_inventory_on_sale\<close>
  raise "Insufficient inventory to allocate" with the missing number of units, and the
  database is as before; a request for exactly the total succeeds, leaves every lot of the
  product with nothing remaining and touches no lot of another product. This holds under
  every costing method.\<close>

theorem depletion_boundary:
  assumes "valid_table (inventory_purchases db)"
  shows "(total_remaining pid (inventory_purchases db) < q \<longrightarrow>
            execute (allocate_inventory_on_sale pid q) db
              = (Some (InsufficientInventoryToAllocate
                         (q - total_remaining pid (inventory_purchases db))), db))
       \<and> (q = total_remaining pid (inventory_purchases db) \<longrightarrow>
            (\<exists>db'. execute (allocate_inventory_on_sale pid q) db = (None, db')
               \<and> (\<forall>p\<in>set (inventory_purchases db').
                     product_id p = pid \<longrightarrow> remaining_quantity p = 0)
               \<and> (\<forall>other. other \<noteq> pid \<longrightarrow>
                     lots_of other (inventory_purchases db')
                       = lots_of other (inventory_purchases db))
               \<and> map purchase_id (inventory_purchases db')
                    = map purchase_id (inventory_purchases db)))"
proof (intro conjI impI)
  let ?total = "total_remaining pid (inventory_purchases db)"
  have nonneg: "0 \<le> ?total" using assms by (rule total_remaining_nonneg)
  {
    assume less: "?total < q"
    then have q: "0 \<le> q" using nonneg by simp
    obtain tbl' where "allocate_loop (cursor_of db pid) q (inventory_purchases db)
        = Inr (q - min q ?total, tbl')"
      using allocate_walk [OF assms q, of pid] by blast
    then have "allocate_inventory_on_sale pid q db
        = Inl (InsufficientInventoryToAllocate (q - ?total))"
      using less by (simp add: allocate_inventory_on_sale_cursor)
    then show "execute (allocate_inventory_on_sale pid q) db
        = (Some (InsufficientInventoryToAllocate (q - ?total)), db)"
      by (simp add: execute_def)
  }
  {
    assume eq: "q = ?total"
    then have q: "0 \<le> q" using nonneg by simp
    obtain tbl' where r:
      "allocate_loop (cursor_of db pid) q (inventory_purchases db) = Inr (q - min q ?total, tbl')"
      "valid_table tbl'"
      "total_remaining pid tbl' = ?total - min q ?total"
      "\<forall>other. other \<noteq> pid \<longrightarrow> lots_of other tbl' = lots_of other (inventory_purchases db)"
      "map purchase_id tbl' = map purchase_id (inventory_purchases db)"
      using allocate_walk [OF assms q, of pid] by blast
    have run: "execute (allocate_inventory_on_sale pid q) db
        = (None, db\<lparr>inventory_purchases := tbl'\<rparr>)"
      using r(1) eq by (simp add: allocate_inventory_on_sale_cursor execute_def)
    have zero: "total_remaining pid tbl' = 0" using r(3) eq by simp
    have "\<forall>p\<in>set tbl'. product_id p = pid \<longrightarrow> remaining_quantity p = 0"
      using total_remaining_zero [OF r(2) zero] by blast
    then show "\<exists>db'. execute (allocate_inventory_on_sale pid q) db = (None, db')
               \<and> (\<forall>p\<in>set (inventory_purchases db').
                     product_id p = pid \<longrightarrow> remaining_quantity p = 0)
               \<and> (\<forall>other. other \<noteq> pid \<longrightarrow>
                     lots_of other (inventory_purchases db')
                       = lots_of other (inventory_purchases db))
               \<and> map purchase_id (inventory_purchases db')
                    = map purchase_id (inventory_purchases db)"
      using run r(4,5) by (intro exI [of _ "db\<lparr>inventory_purchases := tbl'\<rparr>"]) simp
  }
qed

theorem depletion_boundary_witness:
  "valid_table (inventory_purchases (example_db ''LIFO''))
   \<and> total_remaining 1 (inventory_purchases (example_db ''LIFO'')) = 10
   \<and> execute (allocate_inventory_on_sale 1 11) (example_db ''LIFO'')
       = (Some (InsufficientInventoryToAllocate 1), example_db ''LIFO'')
   \<and> (\<exists>db'. execute (allocate_inventory_on_sale 1 10) (example_db ''LIFO'') = (None, db')
          \<and> (\<forall>p\<in>set (inventory_purchases db'). product_id p = 1 \<longrightarrow> remaining_quantity p = 0)
          \<and> map purchase_id (inventory_purchases db') = [1, 2])
   \<and> observe (allocate_inventory_on_sale 1 10 (example_db ''LIFO''))
       = Inr ([lot1\<lparr>remaining_quantity := 0\<rparr>, lot2\<lparr>remaining_quantity := 0\<rparr>], [], Some 10)"
proof -
  have v: "valid_table (inventory_purchases (example_db ''LIFO''))" by code_simp
  have t: "total_remaining 1 (inventory_purchases (example_db ''LIFO'')) = 10" by code_simp
  have ids: "map purchase_id (inventory_purchases (example_db ''LIFO'')) = [1, 2]" by code_simp
  have run: "observe (allocate_inventory_on_sale 1 10 (example_db ''LIFO''))
       = Inr ([lot1\<lparr>remaining_quantity := 0\<rparr>, lot2\<lparr>remaining_quantity := 0\<rparr>], [], Some 10)"
    by code_simp
  have more: "execute (allocate_inventory_on_sale 1 11) (example_db ''LIFO'')
       = (Some (InsufficientInventoryToAllocate 1), example_db ''LIFO'')"
    using depletion_boundary [OF v, of 1 11] t by simp
  have exact: "\<exists>db'. execute (allocate_inventory_on_sale 1 10) (example_db ''LIFO'') = (None, db')
          \<and> (\<forall>p\<in>set (inventory_purchases db'). product_id p = 1 \<longrightarrow> remaining_quantity p = 0)
          \<and> map purchase_id (inventory_purchases db') = [1, 2]"
    using depletion_boundary [OF v, of 1 10] t ids by auto
  show ?thesis using v t more exact run by blast
qed

subsection \<open>Ties on the receipt time\<close>

text \<open>C3, as the code has it. Under FIFO the cost loop and the allocation loop visit the
  unconsumed lots of the product oldest first, and lots received at the same time in
  ascending order of id; under LIFO they visit them newest first, and lots received at the
  same time in descending order of id. An allocation draws on a lot only when every lot
  before it in that order is exhausted. The order is reproducible: with unique ids it
  depends only on which rows the table holds and on the stored method, not on the order in
  which the table holds the rows.\<close>

theorem tie_break_by_direction:
  assumes "valid_table (inventory_purchases db)"
  shows "set (cursor_of db pid) = set (unconsumed pid (inventory_purchases db))
       \<and> (get_inventory_costing_method db = ''FIFO'' \<longrightarrow>
            oldest_first (cursor_of db pid) \<and> ties_ascending (cursor_of db pid)
            \<and> calculate_sale_cost db pid q = cost_loop (cursor_of db pid) q 0)
       \<and> (get_inventory_costing_method db = ''LIFO'' \<longrightarrow>
            newest_first (cursor_of db pid) \<and> ties_descending (cursor_of db pid)
            \<and> calculate_sale_cost db pid q = cost_loop (cursor_of db pid) q 0)
       \<and> (\<forall>db'. 0 \<le> q \<and> allocate_inventory_on_sale pid q db = Inr db' \<longrightarrow>
            drawn_in_order (cursor_of db pid) (inventory_purchases db'))
       \<and> (\<forall>db2. mset (inventory_purchases db2) = mset (inventory_purchases db)
                \<and> get_inventory_costing_method db2 = get_inventory_costing_method db \<longrightarrow>
            cursor_of db2 pid = cursor_of db pid)"
proof (intro conjI impI allI)
  show "set (cursor_of db pid) = set (unconsumed pid (inventory_purchases db))"
    by (rule cursor_of_rows)
next
  assume m: "get_inventory_costing_method db = ''FIFO''"
  then have c: "cursor_of db pid = order_asc (unconsumed pid (inventory_purchases db))"
    by (simp add: cursor_of_def)
  show "oldest_first (cursor_of db pid)" unfolding c by (rule order_asc_oldest_first)
  show "ties_ascending (cursor_of db pid)" unfolding c by (rule order_asc_ties)
  show "calculate_sale_cost db pid q = cost_loop (cursor_of db pid) q 0"
    using m by (intro calculate_sale_cost_loop) simp
next
  assume m: "get_inventory_costing_method db = ''LIFO''"
  then have c: "cursor_of db pid = order_desc (unconsumed pid (inventory_purchases db))"
    by (simp add: cursor_of_def)
  show "newest_first (cursor_of db pid)" unfolding c by (rule order_desc_newest_first)
  show "ties_descending (cursor_of db pid)" unfolding c by (rule order_desc_ties)
  show "calculate_sale_cost db pid q = cost_loop (cursor_of db pid) q 0"
    using m by (intro calculate_sale_cost_loop) simp
next
  fix db' assume "0 \<le> q \<and> allocate_inventory_on_sale pid q db = Inr db'"
  then show "drawn_in_order (cursor_of db pid) (inventory_purchases db')"
    using assms by (intro allocation_drawn_in_order) auto
next
  fix db2 assume "mset (inventory_purchases db2) = mset (inventory_purchases db)
                \<and> get_inventory_costing_method db2 = get_inventory_costing_method db"
  then show "cursor_of db2 pid = cursor_of db pid"
    using assms by (intro cursor_of_permutation) (auto simp: valid_table_def)
qed

theorem tie_break_by_direction_witness:
  "valid_table (inventory_purchases (tie_db ''FIFO''))
   \<and> purchased_at tie_a = purchased_at tie_b
   \<and> get_inventory_costing_method (tie_db ''FIFO'') = ''FIFO''
   \<and> ties_ascending (cursor_of (tie_db ''FIFO'') 1)
   \<and> map purchase_id (cursor_of (tie_db ''FIFO'') 1) = [1, 2]
   \<and> calculate_sale_cost (tie_db ''FIFO'') 1 1 = Inr 1000
   \<and> stored_lots (allocate_inventory_on_sale 1 1 (tie_db ''FIFO'')) = Inr ([1, 2], [4, 5])
   \<and> get_inventory_costing_method (tie_db ''LIFO'') = ''LIFO''
   \<and> ties_descending (cursor_of (tie_db ''LIFO'') 1)
   \<and> map purchase_id (cursor_of (tie_db ''LIFO'') 1) = [2, 1]
   \<and> calculate_sale_cost (tie_db ''LIFO'') 1 1 = Inr 1200
   \<and> stored_lots (allocate_inventory_on_sale 1 1 (tie_db ''LIFO'')) = Inr ([1, 2], [5, 4])"
proof -
  have v: "valid_table (inventory_purchases (tie_db ''FIFO''))"
    "valid_table (inventory_purchases (tie_db ''LIFO''))" by code_simp+
  have m: "get_inventory_costing_method (tie_db ''FIFO'') = ''FIFO''"
    "get_inventory_costing_method (tie_db ''LIFO'') = ''LIFO''" by code_simp+
  have t: "purchased_at tie_a = purchased_at tie_b" by code_simp
  have ids: "map purchase_id (cursor_of (tie_db ''FIFO'') 1) = [1, 2]"
    "map purchase_id (cursor_of (tie_db ''LIFO'') 1) = [2, 1]" by code_simp+
  have cost: "calculate_sale_cost (tie_db ''FIFO'') 1 1 = Inr 1000"
    "calculate_sale_cost (tie_db ''LIFO'') 1 1 = Inr 1200" by code_simp+
  have alloc: "stored_lots (allocate_inventory_on_sale 1 1 (tie_db ''FIFO'')) = Inr ([1, 2], [4, 5])"
    "stored_lots (allocate_inventory_on_sale 1 1 (tie_db ''LIFO'')) = Inr ([1, 2], [5, 4])"
    by code_simp+
  have "ties_ascending (cursor_of (tie_db ''FIFO'') 1)"
    using tie_break_by_direction [OF v(1), of 1 1] m(1) by blast
  moreover have "ties_descending (cursor_of (tie_db ''LIFO'') 1)"
    using tie_break_by_direction [OF v(2), of 1 1] m(2) by blast
  ultimately show ?thesis using v m t ids cost alloc by simp
qed

text \<open>The claim as stated fails twice. Under LIFO, of two lots received at time 7 the one
  with the larger id comes first: the first unit sold is costed at its 12.00 and taken from
  it. And the order of the ids is not the order of insertion, since an id is whatever
  \<^verbatim>\<open>uuid_generate_v4()\<close> returns: when the lot with id 2 is inserted before the lot with
  id 1, FIFO visits the lot inserted second first.\<close>

theorem lifo_ties_counterexample:
  "purchased_at tie_a = purchased_at tie_b
   \<and> map purchase_id (cursor_of (tie_db ''LIFO'') 1) = [2, 1]
   \<and> \<not> ties_ascending (cursor_of (tie_db ''LIFO'') 1)
   \<and> calculate_sale_cost (tie_db ''LIFO'') 1 1 = Inr 1200
   \<and> stored_lots (allocate_inventory_on_sale 1 1 (tie_db ''LIFO'')) = Inr ([1, 2], [5, 4])
   \<and> stored_lots insert_both = Inr ([2, 1], [5, 5])
   \<and> map_sum id (\<lambda>db. map purchase_id (cursor_of db 1)) insert_both = Inr [1, 2]"
  by code_simp

subsection \<open>An unrecognised costing method\<close>




subsection \<open>Allocation order on the worked example\<close>





subsection \<open>The cost under AVERAGE\<close>




subsection \<open>Valuation under FIFO\<close>

text \<open>C8. The FIFO branch of \<^verbatim>\<open>calculate_inventory_value\<close> does not value a product at the
  cost of its unconsumed lots. In the scenario of the repository's own explanation, 20 units
  remain, 12 of a lot at 80,000 and 8 of a lot at 82,000, worth 1,616,000; the function values
  the 20 units at the costs of the oldest purchases and returns 1,580,000. The figure of the
  unconsumed lots is what its LIFO branch returns.\<close>

theorem fifo_valuation_takes_oldest_costs:
  "get_inventory_valuation_method valuation_db = ''FIFO''
   \<and> in_step valuation_db 1
   \<and> total_remaining 1 (inventory_purchases valuation_db) = 20
   \<and> available_cost 1 (inventory_purchases valuation_db) = 161600000
   \<and> map_option total_value (calculate_inventory_value valuation_db 1) = Some 158000000
   \<and> map_option total_value
         (calculate_inventory_value
            (valuation_db\<lparr>system_settings := [''inventory_valuation_method'' \<mapsto> ''LIFO'']\<rparr>) 1)
       = Some 161600000"
  by code_simp

subsection \<open>Switching the policy\<close>

text \<open>C9. When a sale line has been recorded, its cost basis is the unit cost computed at the
  time of the sale from the lots and the policy of that moment, and a later
  \<^verbatim>\<open>setPolicy\<close> leaves the recorded sale lines, and so that cost, as they are.\<close>

theorem recorded_cost_survives_policy_switch:
  assumes "insert_sale_item env new db = Inr db1"
  shows "\<exists>v c. calculate_sale_cost db (item_product_id new) (item_quantity new) = Inr v
           \<and> numeric_10_2 (of_int v / of_int (item_quantity new)) = Inr c
           \<and> sale_items db1 = sale_items db @ [new\<lparr>cost_price := c\<rparr>]
           \<and> sale_items (setPolicy p db1) = sale_items db @ [new\<lparr>cost_price := c\<rparr>]"
proof -
  obtain new' db' where trig: "check_and_allocate_inventory env new db = Inr (new', db')"
    and db1: "db1 = db'\<lparr>sale_items := sale_items db' @ [new']\<rparr>"
    using assms by (auto simp: insert_sale_item_def split: sum.splits if_splits)
  obtain v c dba where v: "calculate_sale_cost db (item_product_id new) (item_quantity new) = Inr v"
    and c: "numeric_10_2 (of_int v / of_int (item_quantity new)) = Inr c"
    and a: "allocate_inventory_on_sale (item_product_id new) (item_quantity new) db = Inr dba"
    and u: "update_products_stock env (item_product_id new) (\<lambda>s. s - item_quantity new) dba = Inr db'"
    and n: "new' = new\<lparr>cost_price := c\<rparr>"
    using trig
    by (auto simp: check_and_allocate_inventory_def split: option.splits sum.splits if_splits)
  have "sale_items db' = sale_items db"
    using allocate_inventory_on_sale_sale_items [OF a] update_products_stock_sale_items [OF u]
    by simp
  then have "sale_items db1 = sale_items db @ [new\<lparr>cost_price := c\<rparr>]"
    using db1 n by simp
  moreover have "sale_items (setPolicy p db1) = sale_items db1"
    by (simp add: setPolicy_def)
  ultimately show ?thesis using v c by auto
qed

theorem recorded_cost_survives_policy_switch_witness:
  "\<exists>db1. insert_sale_item example_env example_item (example_db ''FIFO'') = Inr db1
      \<and> get_inventory_costing_method (setPolicy LIFO db1) = ''LIFO''
      \<and> sale_items (setPolicy LIFO db1) = [example_item\<lparr>cost_price := 1075\<rparr>]"
proof -
  have "observe (insert_sale_item example_env example_item (example_db ''FIFO''))
       = Inr ([lot1\<lparr>remaining_quantity := 0\<rparr>, lot2\<lparr>remaining_quantity := 2\<rparr>],
              [example_item\<lparr>cost_price := 1075\<rparr>], Some 2)"
    by code_simp
  then obtain db1 where run: "insert_sale_item example_env example_item (example_db ''FIFO'') = Inr db1"
    by (cases "insert_sale_item example_env example_item (example_db ''FIFO'')")
       (auto simp: observe_def)
  have q: "item_product_id example_item = 1" "item_quantity example_item = 8"
    by (simp_all add: example_item_def)
  have cost: "calculate_sale_cost (example_db ''FIFO'') 1 8 = Inr 8600" by code_simp
  have unit: "numeric_10_2 (rat_of_int 8600 / rat_of_int 8) = Inr 1075" by code_simp
  have none: "sale_items (example_db ''FIFO'') = []" by (simp add: example_db_def)
  have "sale_items (setPolicy LIFO db1) = [example_item\<lparr>cost_price := 1075\<rparr>]"
    using recorded_cost_survives_policy_switch [OF run, of LIFO] q cost unit none by auto
  moreover have "get_inventory_costing_method (setPolicy LIFO db1) = ''LIFO''"
    by (simp add: setPolicy_def get_inventory_costing_method_def)
  ultimately show ?thesis using run by blast
qed

subsection \<open>The cost of more than there is\<close>

text \<open>C10, as the code has it. \<^verbatim>\<open>calculate_sale_cost\<close> never signals insufficiency; the only
  error it can raise is a numeric overflow. For a quantity above the total remaining
  quantity it returns, under FIFO and LIFO, the cost of the available units only; under
  AVERAGE and any other stored method it returns the rounded weighted unit cost times the
  whole requested quantity, which is not a partial total.\<close>

theorem cost_beyond_stock:
  assumes "valid_table (inventory_purchases db)"
    and "total_remaining pid (inventory_purchases db) < q"
  shows "(\<forall>e. calculate_sale_cost db pid q = Inl e \<longrightarrow> e = NumericFieldOverflow)
       \<and> ((get_inventory_costing_method db = ''FIFO'' \<or> get_inventory_costing_method db = ''LIFO'')
            \<and> available_cost pid (inventory_purchases db) < 10 ^ 10 \<longrightarrow>
          calculate_sale_cost db pid q = Inr (available_cost pid (inventory_purchases db)))
       \<and> (get_inventory_costing_method db \<noteq> ''FIFO'' \<and> get_inventory_costing_method db \<noteq> ''LIFO''
            \<and> 0 < total_remaining pid (inventory_purchases db)
            \<and> round_half_away (of_int (available_cost pid (inventory_purchases db))
                  / of_int (total_remaining pid (inventory_purchases db))) * q < 10 ^ 10 \<longrightarrow>
          calculate_sale_cost db pid q
            = Inr (round_half_away (of_int (available_cost pid (inventory_purchases db))
                     / of_int (total_remaining pid (inventory_purchases db))) * q))"
proof (intro conjI impI allI)
  fix e assume "calculate_sale_cost db pid q = Inl e"
  then show "e = NumericFieldOverflow" by (rule calculate_sale_cost_error)
next
  let ?tbl = "inventory_purchases db"
  assume a: "(get_inventory_costing_method db = ''FIFO'' \<or> get_inventory_costing_method db = ''LIFO'')
            \<and> available_cost pid ?tbl < 10 ^ 10"
  have asc: "cost_loop (order_asc (unconsumed pid ?tbl)) q 0 = Inr (available_cost pid ?tbl)"
    using assms a by (intro loop_branch_value) (simp_all add: order_asc_def sum_list_sort_key)
  have desc: "cost_loop (order_desc (unconsumed pid ?tbl)) q 0 = Inr (available_cost pid ?tbl)"
    using assms a by (intro loop_branch_value) (simp_all add: order_desc_def sum_list_sort_key)
  show "calculate_sale_cost db pid q = Inr (available_cost pid ?tbl)"
    using a asc desc by (auto simp: calculate_sale_cost_def)
next
  assume a: "get_inventory_costing_method db \<noteq> ''FIFO'' \<and> get_inventory_costing_method db \<noteq> ''LIFO''
            \<and> 0 < total_remaining pid (inventory_purchases db)
            \<and> round_half_away (of_int (available_cost pid (inventory_purchases db))
                  / of_int (total_remaining pid (inventory_purchases db))) * q < 10 ^ 10"
  then have "0 < q" using assms(2) by simp
  then show "calculate_sale_cost db pid q
            = Inr (round_half_away (of_int (available_cost pid (inventory_purchases db))
                     / of_int (total_remaining pid (inventory_purchases db))) * q)"
    using assms(1) a by (intro average_branch_value) auto
qed

theorem cost_beyond_stock_witness:
  "valid_table (inventory_purchases (example_db ''LIFO''))
   \<and> total_remaining 1 (inventory_purchases (example_db ''LIFO'')) < 12
   \<and> get_inventory_costing_method (example_db ''LIFO'') = ''LIFO''
   \<and> available_cost 1 (inventory_purchases (example_db ''LIFO'')) = 11000
   \<and> calculate_sale_cost (example_db ''LIFO'') 1 12 = Inr 11000
   \<and> valid_table (inventory_purchases (example_db ''AVERAGE''))
   \<and> total_remaining 1 (inventory_purchases (example_db ''AVERAGE'')) = 10
   \<and> get_inventory_costing_method (example_db ''AVERAGE'') \<noteq> ''FIFO''
   \<and> get_inventory_costing_method (example_db ''AVERAGE'') \<noteq> ''LIFO''
   \<and> calculate_sale_cost (example_db ''AVERAGE'') 1 12 = Inr (1100 * 12)"
proof -
  have v: "valid_table (inventory_purchases (example_db ''LIFO''))" by code_simp
  have t: "total_remaining 1 (inventory_purchases (example_db ''LIFO'')) < 12" by code_simp
  have m: "get_inventory_costing_method (example_db ''LIFO'') = ''LIFO''" by code_simp
  have c: "available_cost 1 (inventory_purchases (example_db ''LIFO'')) = 11000" by code_simp
  have v': "valid_table (inventory_purchases (example_db ''AVERAGE''))" by code_simp
  have t': "total_remaining 1 (inventory_purchases (example_db ''AVERAGE'')) = 10" by code_simp
  have m': "get_inventory_costing_method (example_db ''AVERAGE'') \<noteq> ''FIFO''"
    "get_inventory_costing_method (example_db ''AVERAGE'') \<noteq> ''LIFO''" by code_simp+
  have c': "available_cost 1 (inventory_purchases (example_db ''AVERAGE'')) = 11000" by code_simp
  have u: "round_half_away (rat_of_int 11000 / rat_of_int 10) = 1100" by code_simp
  have "calculate_sale_cost (example_db ''LIFO'') 1 12 = Inr 11000"
    using cost_beyond_stock [OF v t] m c by simp
  moreover have "calculate_sale_cost (example_db ''AVERAGE'') 1 12 = Inr (1100 * 12)"
    using cost_beyond_stock [OF v', of 1 12] t' m' c' u by simp
  ultimately show ?thesis using v t m c v' t' m' by simp
qed

text \<open>The claim as stated fails under AVERAGE: 12 units are requested, 10 are available and
  cost 110.00, and the function returns 12 times 11.00.\<close>

theorem cost_beyond_stock_counterexample:
  "get_inventory_costing_method (example_db ''AVERAGE'') = ''AVERAGE''
   \<and> total_remaining 1 (inventory_purchases (example_db ''AVERAGE'')) = 10
   \<and> available_cost 1 (inventory_purchases (example_db ''AVERAGE'')) = 11000
   \<and> calculate_sale_cost (example_db ''AVERAGE'') 1 12 = Inr 13200"
  by code_simp

end
